theory Spec2Isabelle
  imports Complex_Main "HOL-Library.AList" "HOL-Library.Product_Lexorder"
begin

section \<open>Data model of market.py\<close>

text \<open>
  The exceptions the modelled code can raise.  \<open>KeyError\<close> carries the key that
  was looked up, \<open>AttributeError\<close> the attribute, \<open>ValueError\<close> the message of
  the library.
\<close>

datatype error = KeyError string | AttributeError string | ValueError string

text \<open>
  A timestamp of the \<open>DatetimeIndex\<close> that \<open>pd.to_datetime\<close> builds, in broken-down
  form: year, month, day, hour, minute, second, nanosecond.  The order of the type is
  the lexicographic order of the seven fields, which on well-formed timestamps is the
  chronological order that pandas compares by.
\<close>

type_synonym timestamp = "int \<times> nat \<times> nat \<times> nat \<times> nat \<times> nat \<times> nat"

definition ts_year :: "timestamp \<Rightarrow> int" where
  "ts_year t = fst t"

definition valid_ts :: "timestamp \<Rightarrow> bool" where
  "valid_ts t =
     (case t of (y, mo, d, h, mi, s, ns) \<Rightarrow>
        1 \<le> mo \<and> mo \<le> 12 \<and> 1 \<le> d \<and> d \<le> 31 \<and> h \<le> 23 \<and> mi \<le> 59 \<and> s \<le> 59
        \<and> ns \<le> 999999999)"

text \<open>
  A \<open>pd.Series\<close> of floats with its index, and a \<open>pd.DataFrame\<close>: one shared index
  and the columns in their order, each a name and its values.  Floats are modelled
  as real numbers (the data model's finite prices); no claim settled here depends on
  rounding.
\<close>

record series =
  s_index :: "timestamp list"
  s_values :: "real list"

record dataframe =
  index :: "timestamp list"
  columns :: "(string \<times> real list) list"

text \<open>\<open>df[name]\<close>: the column as a Series on the frame's index, or \<open>KeyError\<close>.\<close>

definition getitem :: "dataframe \<Rightarrow> string \<Rightarrow> error + series" where
  "getitem df name =
     (case map_of (columns df) name of
        None \<Rightarrow> Inl (KeyError name)
      | Some vs \<Rightarrow> Inr \<lparr>s_index = index df, s_values = vs\<rparr>)"

text \<open>
  \<open>df[name] = s\<close>: an existing column is replaced where it stands, a new one is
  appended.  pandas aligns the assigned Series to the frame's index by label; every
  Series assigned in this program carries the frame's own index, where the alignment
  is the identity, so the values are stored as they are.
\<close>

definition setitem :: "string \<Rightarrow> series \<Rightarrow> dataframe \<Rightarrow> dataframe" where
  "setitem name s df = df\<lparr>columns := AList.update name (s_values s) (columns df)\<rparr>"

text \<open>\<open>df.name\<close>: attribute access to a column, \<open>AttributeError\<close> when there is none.\<close>

definition getattr :: "dataframe \<Rightarrow> string \<Rightarrow> error + real list" where
  "getattr df name =
     (case map_of (columns df) name of
        None \<Rightarrow> Inl (AttributeError name)
      | Some vs \<Rightarrow> Inr vs)"

subsection \<open>Formatting integers\<close>

text \<open>Python's \<open>str\<close> of an \<open>int\<close>, as the f-strings of the program use it.\<close>

definition digit_char :: "nat \<Rightarrow> char" where
  "digit_char d = ''0123456789'' ! d"

fun digits_of :: "nat \<Rightarrow> string" where
  "digits_of n = (if n < 10 then [digit_char n] else digits_of (n div 10) @ [digit_char (n mod 10)])"

declare digits_of.simps [simp del]

definition str_int :: "int \<Rightarrow> string" where
  "str_int i = (if i < 0 then CHR ''-'' # digits_of (nat (- i)) else digits_of (nat i))"

section \<open>TechnicalIndicator\<close>

subsection \<open>The exponentially weighted mean of pandas\<close>

text \<open>
  \<open>Series.ewm(span=w).mean()\<close> with the defaults the call leaves in place
  (\<open>adjust=True\<close>, \<open>ignore_na=False\<close>, no minimum number of periods beyond the first
  observation).  pandas rejects a span below 1 when the window object is built and
  otherwise smooths with \<open>\<alpha> = 2 / (span + 1)\<close>.  Its loop keeps the running mean
  \<open>weighted\<close> and the total weight \<open>old_wt\<close> of the points seen so far: each new point
  decays the total weight by \<open>1 - \<alpha>\<close>, enters with weight 1, and the mean is
  renormalised; a point equal to the running mean leaves it as it is.
\<close>

definition alpha_of_span :: "int \<Rightarrow> real" where
  "alpha_of_span w = 2 / (real_of_int w + 1)"

fun ewm_loop :: "real \<Rightarrow> real \<Rightarrow> real \<Rightarrow> real list \<Rightarrow> real list" where
  "ewm_loop a weighted old_wt [] = []"
| "ewm_loop a weighted old_wt (cur # rest) =
     (let old_wt1 = old_wt * (1 - a);
          weighted1 = (if weighted \<noteq> cur
                       then (old_wt1 * weighted + 1 * cur) / (old_wt1 + 1)
                       else weighted);
          old_wt2 = old_wt1 + 1
      in weighted1 # ewm_loop a weighted1 old_wt2 rest)"

fun ewm_values :: "real \<Rightarrow> real list \<Rightarrow> real list" where
  "ewm_values a [] = []"
| "ewm_values a (x # xs) = x # ewm_loop a x 1 xs"

definition ewm_mean :: "int \<Rightarrow> series \<Rightarrow> error + series" where
  "ewm_mean spans s =
     (if spans < 1 then Inl (ValueError ''span must satisfy: span >= 1'')
      else Inr \<lparr>s_index = s_index s, s_values = ewm_values (alpha_of_span spans) (s_values s)\<rparr>)"

subsection \<open>The class\<close>

text \<open>\<open>calc_ema\<close>: \<open>self.data['close'].ewm(span=spans).mean()\<close>.\<close>

definition calc_ema :: "dataframe \<Rightarrow> int \<Rightarrow> error + series" where
  "calc_ema df spans =
     (case getitem df ''close'' of
        Inl e \<Rightarrow> Inl e
      | Inr close \<Rightarrow> ewm_mean spans close)"

definition col_ema :: "int \<Rightarrow> string" where
  "col_ema interval = ''ema_'' @ str_int interval"

text \<open>
  The loop of \<open>__init__\<close> over \<open>self.intervals\<close>: each pass reads the close column of
  the frame as it then is and writes the column \<open>ema_<interval>\<close> into the same frame.
\<close>

fun add_emas :: "int list \<Rightarrow> dataframe \<Rightarrow> error + dataframe" where
  "add_emas [] df = Inr df"
| "add_emas (interval # rest) df =
     (case calc_ema df interval of
        Inl e \<Rightarrow> Inl e
      | Inr s \<Rightarrow> add_emas rest (setitem (col_ema interval) s df))"

definition intervals :: "int list" where
  "intervals = [9, 12, 21, 30, 50, 80, 100, 200]"

definition TechnicalIndicator :: "dataframe \<Rightarrow> error + dataframe" where
  "TechnicalIndicator df = add_emas intervals df"

section \<open>TimeSeriesSplit\<close>

subsection \<open>Label slicing on a DatetimeIndex\<close>

text \<open>
  \<open>df.loc[since:till]\<close> with date strings.  pandas turns the string \<open>'Y-01-01'\<close>, as the
  lower end of a slice, into the first instant of that day, and \<open>'Y-12-31'\<close>, as the
  upper end, into the last instant of that day (one nanosecond before the next
  midnight).  The strings are those that \<open>f'{year}-01-01'\<close> and \<open>f'{year}-12-31'\<close>
  render for a year that Python prints with four digits.
\<close>

definition since_bound :: "int \<Rightarrow> timestamp" where
  "since_bound year = (year, 1, 1, 0, 0, 0, 0)"

definition till_bound :: "int \<Rightarrow> timestamp" where
  "till_bound year = (year, 12, 31, 23, 59, 59, 999999999)"

text \<open>
  The position search of a sorted index: the first position whose label is not below
  the bound (side left), and the first position whose label is above it (side right).
\<close>

definition searchsorted_left :: "timestamp list \<Rightarrow> timestamp \<Rightarrow> nat" where
  "searchsorted_left idx v = length (takeWhile (\<lambda>t. t < v) idx)"

definition searchsorted_right :: "timestamp list \<Rightarrow> timestamp \<Rightarrow> nat" where
  "searchsorted_right idx v = length (takeWhile (\<lambda>t. t \<le> v) idx)"

text \<open>The rows at positions \<open>lo \<le> i < hi\<close>, with all columns (\<open>df.iloc[lo:hi]\<close>).\<close>

definition iloc_rows :: "nat \<Rightarrow> nat \<Rightarrow> dataframe \<Rightarrow> dataframe" where
  "iloc_rows lo hi df =
     \<lparr>index = take (hi - lo) (drop lo (index df)),
      columns = map (\<lambda>c. (fst c, take (hi - lo) (drop lo (snd c)))) (columns df)\<rparr>"

text \<open>The rows that a boolean mask selects, with all columns.\<close>

definition select_mask :: "bool list \<Rightarrow> 'a list \<Rightarrow> 'a list" where
  "select_mask keep xs = map snd (filter fst (zip keep xs))"

definition mask_rows :: "bool list \<Rightarrow> dataframe \<Rightarrow> dataframe" where
  "mask_rows keep df =
     \<lparr>index = select_mask keep (index df),
      columns = map (\<lambda>c. (fst c, select_mask keep (snd c))) (columns df)\<rparr>"

text \<open>
  On a monotonically increasing index (duplicates allowed) the slice is the contiguous
  block between the two searched positions.  On any other index pandas (from 2.0)
  selects by comparison when both bounds occur in the index as labels, and raises
  \<open>KeyError\<close> when one does not.
\<close>

definition loc_slice :: "timestamp \<Rightarrow> timestamp \<Rightarrow> dataframe \<Rightarrow> error + dataframe" where
  "loc_slice since till df =
     (if sorted (index df)
      then Inr (iloc_rows (searchsorted_left (index df) since)
                          (searchsorted_right (index df) till) df)
      else if since \<in> set (index df) \<and> till \<in> set (index df)
      then Inr (mask_rows (map (\<lambda>t. since \<le> t \<and> t \<le> till) (index df)) df)
      else Inl (KeyError ''non-existing keys on a non-monotonic DatetimeIndex''))"

subsection \<open>The class\<close>

record TimeSeriesSplit =
  tss_data :: dataframe
  tss_intervals :: "int list"
  tss_split_data :: "(string \<times> dataframe) list"

text \<open>\<open>__init__\<close>: the dictionary starts empty.\<close>

definition TimeSeriesSplit_init :: "dataframe \<Rightarrow> int list \<Rightarrow> TimeSeriesSplit" where
  "TimeSeriesSplit_init df ys = \<lparr>tss_data = df, tss_intervals = ys, tss_split_data = []\<rparr>"

definition split_key :: "int \<Rightarrow> string" where
  "split_key year = str_int year @ ''_data''"

text \<open>
  The loop of \<open>split_by_intervals\<close>: a Python dict keeps a key where it was first
  inserted and overwrites its value, as \<open>AList.update\<close> does.
\<close>

fun split_loop :: "int list \<Rightarrow> dataframe \<Rightarrow> (string \<times> dataframe) list
    \<Rightarrow> error + (string \<times> dataframe) list" where
  "split_loop [] df sd = Inr sd"
| "split_loop (year # rest) df sd =
     (case loc_slice (since_bound year) (till_bound year) df of
        Inl e \<Rightarrow> Inl e
      | Inr part \<Rightarrow> split_loop rest df (AList.update (split_key year) part sd))"

text \<open>The method returns \<open>self.split_data\<close>, the field of the object it has updated.\<close>

definition split_by_intervals :: "TimeSeriesSplit \<Rightarrow> error + TimeSeriesSplit" where
  "split_by_intervals self =
     (case split_loop (tss_intervals self) (tss_data self) (tss_split_data self) of
        Inl e \<Rightarrow> Inl e
      | Inr sd \<Rightarrow> Inr (self\<lparr>tss_split_data := sd\<rparr>))"

section \<open>The module\<close>

definition years :: "int list" where
  "years = [2017, 2018, 2019, 2020, 2021, 2022, 2023, 2024]"

definition color_palettes :: "string list" where
  "color_palettes = [''orange'', ''purple'', ''brown'', ''blue'', ''olive'']"

text \<open>
  The statements the module runs when it is loaded, from the frame that was read:
  the indicators are written into the frame, then the frame is split by the years.
\<close>

definition startup :: "dataframe \<Rightarrow> error + dataframe \<times> (string \<times> dataframe) list" where
  "startup df =
     (case TechnicalIndicator df of
        Inl e \<Rightarrow> Inl e
      | Inr df1 \<Rightarrow>
          (case split_by_intervals (TimeSeriesSplit_init df1 years) of
             Inl e \<Rightarrow> Inl e
           | Inr splitter \<Rightarrow> Inr (df1, tss_split_data splitter)))"

subsection \<open>The figure and the callback\<close>

datatype trace =
    Candlestick (c_x: "timestamp list") (c_open: "real list") (c_high: "real list")
      (c_low: "real list") (c_close: "real list") (c_name: string)
  | Scatter (sc_x: "timestamp list") (sc_y: "real list") (sc_mode: string) (sc_name: string)
      (sc_color: string)

record figure =
  fig_data :: "trace list"
  fig_template :: "string option"
  fig_rangeslider_visible :: "bool option"
  fig_height :: "nat option"

definition Figure :: "trace \<Rightarrow> figure" where
  "Figure tr = \<lparr>fig_data = [tr], fig_template = None, fig_rangeslider_visible = None,
                fig_height = None\<rparr>"

definition add_trace :: "trace \<Rightarrow> figure \<Rightarrow> figure" where
  "add_trace tr fig = fig\<lparr>fig_data := fig_data fig @ [tr]\<rparr>"

definition update_layout :: "string \<Rightarrow> bool \<Rightarrow> nat \<Rightarrow> figure \<Rightarrow> figure" where
  "update_layout tpl vis h fig =
     fig\<lparr>fig_template := Some tpl, fig_rangeslider_visible := Some vis, fig_height := Some h\<rparr>"

text \<open>
  The loop \<open>for i, indicator_col in enumerate(...)\<close> of the callback; \<open>i\<close> is the
  position that \<open>enumerate\<close> counts.
\<close>

fun add_indicator_traces :: "nat \<Rightarrow> string list \<Rightarrow> dataframe \<Rightarrow> figure \<Rightarrow> error + figure" where
  "add_indicator_traces i [] year_data fig = Inr fig"
| "add_indicator_traces i (indicator_col # rest) year_data fig =
     (case getitem year_data indicator_col of
        Inl e \<Rightarrow> Inl e
      | Inr s \<Rightarrow>
          add_indicator_traces (Suc i) rest year_data
            (add_trace (Scatter (index year_data) (s_values s) ''lines'' indicator_col
                          (color_palettes ! (i mod length color_palettes))) fig))"

definition candlestick_of :: "dataframe \<Rightarrow> error + trace" where
  "candlestick_of year_data =
     (case getattr year_data ''open'' of Inl e \<Rightarrow> Inl e | Inr op \<Rightarrow>
     (case getattr year_data ''high'' of Inl e \<Rightarrow> Inl e | Inr hi \<Rightarrow>
     (case getattr year_data ''low'' of Inl e \<Rightarrow> Inl e | Inr lo \<Rightarrow>
     (case getattr year_data ''close'' of Inl e \<Rightarrow> Inl e | Inr cl \<Rightarrow>
        Inr (Candlestick (index year_data) op hi lo cl ''Candlestick'')))))"

text \<open>
  \<open>display_candlestick\<close>, with the module's \<open>split_data\<close> as its first argument.  The
  year arrives as the string the dropdown holds.
\<close>

definition display_candlestick ::
    "(string \<times> dataframe) list \<Rightarrow> string list \<Rightarrow> string list \<Rightarrow> string
     \<Rightarrow> error + figure \<times> string" where
  "display_candlestick split_data dark_mode selected_indicators selected_year =
     (case map_of split_data (selected_year @ ''_data'') of
        None \<Rightarrow> Inl (KeyError (selected_year @ ''_data''))
      | Some year_data \<Rightarrow>
          (case candlestick_of year_data of
             Inl e \<Rightarrow> Inl e
           | Inr candle \<Rightarrow>
               (case add_indicator_traces 0 (take 5 selected_indicators) year_data
                       (Figure candle) of
                  Inl e \<Rightarrow> Inl e
                | Inr fig \<Rightarrow>
                    if ''dark'' \<in> set dark_mode
                    then Inr (update_layout ''plotly_dark'' False 800 fig, ''dark-mode'')
                    else Inr (update_layout ''plotly'' False 800 fig, ''light-mode''))))"

section \<open>Auxiliary notions for the statements\<close>

text \<open>
  The weighted sum and the total weight of the points up to position \<open>t\<close>, with
  weights decaying by \<open>1 - a\<close> per step back in time.
\<close>

definition wnum :: "real \<Rightarrow> real list \<Rightarrow> nat \<Rightarrow> real" where
  "wnum a xs t = (\<Sum>i\<le>t. (1 - a) ^ (t - i) * xs ! i)"

definition wden :: "real \<Rightarrow> nat \<Rightarrow> real" where
  "wden a t = (\<Sum>i\<le>t. (1 - a) ^ i)"

text \<open>
  The years whose first and last instant both lie in the range of the nanosecond
  timestamps of pandas (1677-09-21 to 2262-04-11), and which Python prints with four
  digits: the years for which the date strings of the split are modelled.
\<close>

definition year_in_range :: "int \<Rightarrow> bool" where
  "year_in_range y = (1678 \<le> y \<and> y \<le> 2261)"

text \<open>The block of rows that the label slice of a year selects on a sorted index.\<close>

definition year_rows :: "dataframe \<Rightarrow> int \<Rightarrow> dataframe" where
  "year_rows df y =
     iloc_rows (searchsorted_left (index df) (since_bound y))
               (searchsorted_right (index df) (till_bound y)) df"

text \<open>The trace that the loop of the callback adds at position \<open>i\<close> for a column.\<close>

definition scatter_of :: "dataframe \<Rightarrow> nat \<Rightarrow> string \<Rightarrow> real list \<Rightarrow> trace" where
  "scatter_of yd i col vs =
     Scatter (index yd) vs ''lines'' col (color_palettes ! (i mod length color_palettes))"

text \<open>Two small price tables on which the statements are evaluated.\<close>

definition example_prices :: dataframe where
  "example_prices =
     \<lparr>index = [(2020, 12, 31, 22, 0, 0, 0), (2020, 12, 31, 23, 59, 59, 0), (2021, 1, 1, 0, 0, 0, 0)],
      columns = [(''open'', [10, 10, 20]), (''high'', [12, 21, 41]), (''low'', [9, 10, 19]),
                 (''close'', [10, 20, 40])]\<rparr>"

definition empty_prices :: dataframe where
  "empty_prices =
     \<lparr>index = [],
      columns = [(''open'', []), (''high'', []), (''low'', []), (''close'', [])]\<rparr>"

text \<open>A price table that holds the close prices only.\<close>

definition close_only_prices :: dataframe where
  "close_only_prices =
     \<lparr>index = [(2020, 12, 31, 22, 0, 0, 0), (2020, 12, 31, 23, 59, 59, 0), (2021, 1, 1, 0, 0, 0, 0)],
      columns = [(''close'', [10, 20, 40])]\<rparr>"

text \<open>
  The first table after the indicator computation, the dictionary the module builds
  from it, and the figure of a query for the year 2020.
\<close>

definition example_enriched :: dataframe where
  "example_enriched =
     \<lparr>index = [(2020, 12, 31, 22, 0, 0, 0), (2020, 12, 31, 23, 59, 59, 0), (2021, 1, 1, 0, 0, 0, 0)],
      columns = [(''open'', [10, 10, 20]), (''high'', [12, 21, 41]), (''low'', [9, 10, 19]),
                 (''close'', [10, 20, 40]),
                 (''ema_9'', [10, 140 / 9, 1560 / 61]),
                 (''ema_12'', [10, 185 / 12, 10830 / 433]),
                 (''ema_21'', [10, 320 / 21, 8040 / 331]),
                 (''ema_30'', [10, 91 / 6, 64830 / 2701]),
                 (''ema_50'', [10, 151 / 10, 178030 / 7501]),
                 (''ema_80'', [10, 241 / 16, 64690 / 2743]),
                 (''ema_100'', [10, 301 / 20, 706030 / 30001]),
                 (''ema_200'', [10, 601 / 40, 2812030 / 120001])]\<rparr>"

definition example_split :: "(string \<times> dataframe) list" where
  "example_split = map (\<lambda>y. (split_key y, year_rows example_enriched y)) years"

definition example_figure :: figure where
  "example_figure =
     \<lparr>fig_data =
        [Candlestick [(2020, 12, 31, 22, 0, 0, 0), (2020, 12, 31, 23, 59, 59, 0)]
           [10, 10] [12, 21] [9, 10] [10, 20] ''Candlestick'',
         Scatter [(2020, 12, 31, 22, 0, 0, 0), (2020, 12, 31, 23, 59, 59, 0)]
           [10, 140 / 9] ''lines'' ''ema_9'' ''orange'',
         Scatter [(2020, 12, 31, 22, 0, 0, 0), (2020, 12, 31, 23, 59, 59, 0)]
           [10, 185 / 12] ''lines'' ''ema_12'' ''purple'',
         Scatter [(2020, 12, 31, 22, 0, 0, 0), (2020, 12, 31, 23, 59, 59, 0)]
           [10, 320 / 21] ''lines'' ''ema_21'' ''brown'',
         Scatter [(2020, 12, 31, 22, 0, 0, 0), (2020, 12, 31, 23, 59, 59, 0)]
           [10, 91 / 6] ''lines'' ''ema_30'' ''blue'',
         Scatter [(2020, 12, 31, 22, 0, 0, 0), (2020, 12, 31, 23, 59, 59, 0)]
           [10, 151 / 10] ''lines'' ''ema_50'' ''olive''],
      fig_template = Some ''plotly'', fig_rangeslider_visible = Some False,
      fig_height = Some 800\<rparr>"

section \<open>Decimal rendering is injective\<close>

lemma digit_char_inj: "a < 10 \<Longrightarrow> b < 10 \<Longrightarrow> digit_char a = digit_char b \<Longrightarrow> a = b"
proof -
  assume a: "a < 10" and b: "b < 10" and e: "digit_char a = digit_char b"
  have A: "a \<in> {0,1,2,3,4,5,6,7,8,9}" using a by auto
  have B: "b \<in> {0,1,2,3,4,5,6,7,8,9}" using b by auto
  show ?thesis using A B e by (auto simp: digit_char_def)
qed

lemma digit_char_not_minus: "d < 10 \<Longrightarrow> digit_char d \<noteq> CHR ''-''"
proof -
  assume a: "d < 10"
  have A: "d \<in> {0,1,2,3,4,5,6,7,8,9}" using a by auto
  show ?thesis using A by (auto simp: digit_char_def)
qed

lemma digits_of_snoc: "10 \<le> n \<Longrightarrow> digits_of n = digits_of (n div 10) @ [digit_char (n mod 10)]"
  by (subst digits_of.simps) simp

lemma digits_of_small: "n < 10 \<Longrightarrow> digits_of n = [digit_char n]"
  by (subst digits_of.simps) simp

lemma digits_of_nonempty: "digits_of n \<noteq> []"
  by (subst digits_of.simps) simp

lemma digits_of_inj: "digits_of m = digits_of n \<Longrightarrow> m = n"
proof (induction m arbitrary: n rule: digits_of.induct)
  case (1 m)
  show ?case
  proof (cases "m < 10")
    case True
    then have dm: "digits_of m = [digit_char m]" by (rule digits_of_small)
    show ?thesis
    proof (cases "n < 10")
      case True
      with dm 1(2) \<open>m < 10\<close> show ?thesis by (simp add: digits_of_small digit_char_inj)
    next
      case False
      then have "digits_of n = digits_of (n div 10) @ [digit_char (n mod 10)]"
        by (simp add: digits_of_snoc)
      with dm 1(2) digits_of_nonempty[of "n div 10"] show ?thesis by simp
    qed
  next
    case False
    then have dm: "digits_of m = digits_of (m div 10) @ [digit_char (m mod 10)]"
      by (simp add: digits_of_snoc)
    show ?thesis
    proof (cases "n < 10")
      case True
      then have "digits_of n = [digit_char n]" by (rule digits_of_small)
      with dm 1(2) digits_of_nonempty[of "m div 10"] show ?thesis by simp
    next
      case nf: False
      then have dn: "digits_of n = digits_of (n div 10) @ [digit_char (n mod 10)]"
        by (simp add: digits_of_snoc)
      from dm dn 1(2) have e1: "digits_of (m div 10) = digits_of (n div 10)"
        and e2: "digit_char (m mod 10) = digit_char (n mod 10)" by simp_all
      from 1(1)[OF False e1] have "m div 10 = n div 10" .
      moreover from e2 have "m mod 10 = n mod 10" by (simp add: digit_char_inj)
      ultimately show ?thesis by (metis div_mult_mod_eq)
    qed
  qed
qed

lemma hd_digits_of_not_minus: "hd (digits_of n) \<noteq> CHR ''-''"
proof (induction n rule: digits_of.induct)
  case (1 n)
  show ?case
  proof (cases "n < 10")
    case True
    then show ?thesis by (simp add: digits_of_small digit_char_not_minus)
  next
    case False
    then show ?thesis using 1 digits_of_nonempty[of "n div 10"]
      by (simp add: digits_of_snoc)
  qed
qed

lemma str_int_inj: "str_int i = str_int j \<Longrightarrow> i = j"
proof -
  assume e: "str_int i = str_int j"
  have neg: "\<And>a b. CHR ''-'' # digits_of a \<noteq> digits_of b"
  proof
    fix a b assume "CHR ''-'' # digits_of a = digits_of b"
    then have "hd (digits_of b) = CHR ''-''" by (metis list.sel(1))
    then show False using hd_digits_of_not_minus by blast
  qed
  show ?thesis
  proof (cases "i < 0"; cases "j < 0")
    assume "i < 0" "j < 0"
    with e have "nat (- i) = nat (- j)" by (auto simp: str_int_def dest: digits_of_inj)
    with \<open>i < 0\<close> \<open>j < 0\<close> show ?thesis by linarith
  next
    assume "i < 0" "\<not> j < 0"
    with e neg show ?thesis by (auto simp: str_int_def)
  next
    assume "\<not> i < 0" "j < 0"
    with e neg[of "nat (- j)" "nat i"] show ?thesis by (auto simp: str_int_def)
  next
    assume "\<not> i < 0" "\<not> j < 0"
    with e have "nat i = nat j" by (auto simp: str_int_def dest: digits_of_inj)
    with \<open>\<not> i < 0\<close> \<open>\<not> j < 0\<close> show ?thesis by linarith
  qed
qed


section \<open>The exponentially weighted mean in closed form\<close>

lemma length_ewm_loop: "length (ewm_loop a w d xs) = length xs"
  by (induction xs arbitrary: w d) (simp_all add: Let_def)

lemma length_ewm_values: "length (ewm_values a xs) = length xs"
  by (cases xs) (simp_all add: length_ewm_loop)



lemma ewm_step:
  fixes d a w cur :: real
  assumes "0 < d" "0 \<le> 1 - a"
  shows "(if w \<noteq> cur then (d * (1 - a) * w + 1 * cur) / (d * (1 - a) + 1) else w)
       = ((1 - a) * (d * w) + cur) / ((1 - a) * d + 1)"
proof -
  have "0 \<le> (1 - a) * d" by (rule mult_nonneg_nonneg[OF assms(2) less_imp_le[OF assms(1)]])
  then have pos: "0 < (1 - a) * d + 1" by simp
  show ?thesis
  proof (cases "w = cur")
    case True
    have "((1 - a) * (d * cur) + cur) = cur * ((1 - a) * d + 1)" by (simp add: algebra_simps)
    then have "((1 - a) * (d * cur) + cur) / ((1 - a) * d + 1) = cur" using pos by simp
    with True show ?thesis by simp
  next
    case False
    then show ?thesis by (simp add: mult.commute mult.left_commute)
  qed
qed

lemma wden_pos: "0 \<le> 1 - a \<Longrightarrow> 0 < wden a t"
proof -
  assume h: "0 \<le> 1 - a"
  have "wden a t = 1 + (\<Sum>i<t. (1 - a) ^ Suc i)"
    unfolding wden_def by (simp add: sum.atMost_shift del: power_Suc)
  moreover have "0 \<le> (\<Sum>i<t. (1 - a) ^ Suc i)" using h by (intro sum_nonneg) simp
  ultimately show ?thesis by simp
qed

lemma wden_Suc: "wden a (Suc t) = (1 - a) * wden a t + 1"
proof -
  have "wden a (Suc t) = 1 + (\<Sum>i\<le>t. (1 - a) ^ Suc i)"
    unfolding wden_def by (subst sum.atMost_Suc_shift) simp
  also have "(\<Sum>i\<le>t. (1 - a) ^ Suc i) = (1 - a) * wden a t"
    unfolding wden_def by (simp add: sum_distrib_left)
  finally show ?thesis by simp
qed

lemma wnum_Suc: "wnum a xs (Suc t) = (1 - a) * wnum a xs t + xs ! Suc t"
  unfolding wnum_def by (simp add: sum_distrib_left Suc_diff_le mult.assoc)

lemma ewm_loop_nth:
  assumes "0 \<le> 1 - a"
  shows "k < length rest \<Longrightarrow> length pre = Suc t \<Longrightarrow>
    ewm_loop a (wnum a (pre @ rest) t / wden a t) (wden a t) rest ! k
      = wnum a (pre @ rest) (Suc t + k) / wden a (Suc t + k)"
proof (induction rest arbitrary: pre t k)
  case Nil
  then show ?case by simp
next
  case (Cons cur rest)
  let ?xs = "pre @ cur # rest"
  have dpos: "0 < wden a t" using assms by (rule wden_pos)
  have cur: "?xs ! Suc t = cur" using Cons.prems(2) by (simp add: nth_append)
  have step: "(if wnum a ?xs t / wden a t \<noteq> cur
               then (wden a t * (1 - a) * (wnum a ?xs t / wden a t) + 1 * cur) / (wden a t * (1 - a) + 1)
               else wnum a ?xs t / wden a t)
             = wnum a ?xs (Suc t) / wden a (Suc t)"
    using dpos by (simp add: ewm_step[OF dpos assms] wnum_Suc wden_Suc cur)
  have d2: "wden a t * (1 - a) + 1 = wden a (Suc t)" by (simp add: wden_Suc mult.commute)
  show ?case
  proof (cases k)
    case 0
    then show ?thesis using step by (simp add: Let_def)
  next
    case (Suc j)
    have "ewm_loop a (wnum a ((pre @ [cur]) @ rest) (Suc t) / wden a (Suc t)) (wden a (Suc t)) rest ! j
          = wnum a ((pre @ [cur]) @ rest) (Suc (Suc t) + j) / wden a (Suc (Suc t) + j)"
      using Cons.prems Suc by (intro Cons.IH) simp_all
    then show ?thesis using Suc step d2 by (simp add: Let_def)
  qed
qed

lemma wnum_0: "wnum a xs 0 = xs ! 0" by (simp add: wnum_def)
lemma wden_0: "wden a 0 = 1" by (simp add: wden_def)

lemma ewm_values_nth:
  assumes "0 \<le> 1 - a" "t < length xs"
  shows "ewm_values a xs ! t = wnum a xs t / wden a t"
proof (cases xs)
  case Nil
  with assms show ?thesis by simp
next
  case (Cons x rest)
  show ?thesis
  proof (cases t)
    case 0
    then show ?thesis using Cons by (simp add: wnum_0 wden_0)
  next
    case (Suc k)
    have "ewm_loop a (wnum a ([x] @ rest) 0 / wden a 0) (wden a 0) rest ! k
        = wnum a ([x] @ rest) (Suc 0 + k) / wden a (Suc 0 + k)"
      using assms Cons Suc by (intro ewm_loop_nth) simp_all
    then show ?thesis using Cons Suc by (simp add: wnum_0 wden_0)
  qed
qed

lemma alpha_of_span_range: "1 \<le> w \<Longrightarrow> 0 \<le> 1 - alpha_of_span w"
  by (simp add: alpha_of_span_def)

lemma wden_step: "0 < t \<Longrightarrow> wden a t = (1 - a) * wden a (t - 1) + 1"
  using wden_Suc[of a "t - 1"] by simp

lemma wnum_step: "0 < t \<Longrightarrow> wnum a xs t = (1 - a) * wnum a xs (t - 1) + xs ! t"
  using wnum_Suc[of a xs "t - 1"] by simp

lemma adjusted_recurrence:
  assumes a: "0 \<le> 1 - a" and t: "0 < t"
  shows "wnum a xs t / wden a t
       = (1 / wden a t) * xs ! t + (1 - 1 / wden a t) * (wnum a xs (t - 1) / wden a (t - 1))"
proof -
  have p: "0 < wden a t" and q: "0 < wden a (t - 1)" using a by (simp_all add: wden_pos)
  have "(1 - 1 / wden a t) = (1 - a) * wden a (t - 1) / wden a t"
    using p wden_step[OF t, of a] by (simp add: field_simps)
  then have "(1 - 1 / wden a t) * (wnum a xs (t - 1) / wden a (t - 1))
           = (1 - a) * wnum a xs (t - 1) / wden a t"
    using q by simp
  then show ?thesis using p wnum_step[OF t, of a xs] by (simp add: field_simps)
qed


section \<open>Properties of the indicator computation\<close>

lemma col_ema_inj: "col_ema v = col_ema w \<Longrightarrow> v = w"
  by (simp add: col_ema_def str_int_inj)

lemma col_ema_not_price:
  "col_ema w \<noteq> ''close''" "col_ema w \<noteq> ''open''" "col_ema w \<noteq> ''high''" "col_ema w \<noteq> ''low''"
  by (simp_all add: col_ema_def)

lemma calc_ema_Inr:
  "map_of (columns df) ''close'' = Some cl \<Longrightarrow> 1 \<le> w \<Longrightarrow>
   calc_ema df w = Inr \<lparr>s_index = index df, s_values = ewm_values (alpha_of_span w) cl\<rparr>"
  by (simp add: calc_ema_def getitem_def ewm_mean_def)

lemma calc_ema_no_close:
  "map_of (columns df) ''close'' = None \<Longrightarrow> calc_ema df w = Inl (KeyError ''close'')"
  by (simp add: calc_ema_def getitem_def)

lemma calc_ema_bad_span:
  "map_of (columns df) ''close'' = Some cl \<Longrightarrow> w < 1 \<Longrightarrow>
   calc_ema df w = Inl (ValueError ''span must satisfy: span >= 1'')"
  by (simp add: calc_ema_def getitem_def ewm_mean_def)

lemma calc_ema_InrD:
  "calc_ema df w = Inr s \<Longrightarrow>
   \<exists>cl. map_of (columns df) ''close'' = Some cl \<and> 1 \<le> w
        \<and> s = \<lparr>s_index = index df, s_values = ewm_values (alpha_of_span w) cl\<rparr>"
  by (auto simp: calc_ema_def getitem_def ewm_mean_def split: option.splits if_splits)

lemma setitem_index: "index (setitem n s df) = index df"
  by (simp add: setitem_def)

lemma setitem_lookup:
  "map_of (columns (setitem n s df)) m = (if m = n then Some (s_values s) else map_of (columns df) m)"
  by (simp add: setitem_def update_conv')

lemma setitem_names:
  "fst ` set (columns (setitem n s df)) = insert n (fst ` set (columns df))"
  by (simp add: setitem_def dom_update)

lemma add_emas_index: "add_emas ws df = Inr df' \<Longrightarrow> index df' = index df"
proof (induction ws arbitrary: df)
  case Nil
  then show ?case by simp
next
  case (Cons w ws)
  then show ?case by (auto split: sum.splits simp: setitem_index)
qed

lemma add_emas_other:
  "add_emas ws df = Inr df' \<Longrightarrow> n \<notin> col_ema ` set ws \<Longrightarrow>
   map_of (columns df') n = map_of (columns df) n"
proof (induction ws arbitrary: df)
  case Nil
  then show ?case by simp
next
  case (Cons w ws)
  from Cons.prems(1) obtain s where s: "calc_ema df w = Inr s"
    and r: "add_emas ws (setitem (col_ema w) s df) = Inr df'"
    by (auto split: sum.splits)
  from Cons.prems(2) have n: "n \<noteq> col_ema w" "n \<notin> col_ema ` set ws" by auto
  from Cons.IH[OF r n(2)] n(1) show ?case by (simp add: setitem_lookup)
qed

lemma add_emas_names:
  "add_emas ws df = Inr df' \<Longrightarrow>
   fst ` set (columns df') = fst ` set (columns df) \<union> col_ema ` set ws"
proof (induction ws arbitrary: df)
  case Nil
  then show ?case by simp
next
  case (Cons w ws)
  from Cons.prems(1) obtain s where s: "calc_ema df w = Inr s"
    and r: "add_emas ws (setitem (col_ema w) s df) = Inr df'"
    by (auto split: sum.splits)
  from Cons.IH[OF r] show ?case by (auto simp: setitem_names)
qed

lemma add_emas_lookup:
  "add_emas ws df = Inr df' \<Longrightarrow> map_of (columns df) ''close'' = Some cl \<Longrightarrow> w \<in> set ws \<Longrightarrow>
   map_of (columns df') (col_ema w) = Some (ewm_values (alpha_of_span w) cl)"
proof (induction ws arbitrary: df)
  case Nil
  then show ?case by simp
next
  case (Cons v ws)
  from Cons.prems(1) obtain s where s: "calc_ema df v = Inr s"
    and r: "add_emas ws (setitem (col_ema v) s df) = Inr df'"
    by (auto split: sum.splits)
  let ?df1 = "setitem (col_ema v) s df"
  have cl1: "map_of (columns ?df1) ''close'' = Some cl"
    using Cons.prems(2) col_ema_not_price(1)[of v] by (simp add: setitem_lookup)
  show ?case
  proof (cases "w \<in> set ws")
    case True
    from Cons.IH[OF r cl1 True] show ?thesis .
  next
    case False
    with Cons.prems(3) have wv: "w = v" by simp
    from False have "col_ema w \<notin> col_ema ` set ws" by (auto dest: col_ema_inj)
    from add_emas_other[OF r this] have "map_of (columns df') (col_ema w) = Some (s_values s)"
      using wv by (simp add: setitem_lookup)
    moreover from calc_ema_InrD[OF s] Cons.prems(2) have "s_values s = ewm_values (alpha_of_span v) cl"
      by auto
    ultimately show ?thesis using wv by simp
  qed
qed

lemma add_emas_total:
  "map_of (columns df) ''close'' = Some cl \<Longrightarrow> \<forall>w\<in>set ws. 1 \<le> w \<Longrightarrow> \<exists>df'. add_emas ws df = Inr df'"
proof (induction ws arbitrary: df)
  case Nil
  then show ?case by simp
next
  case (Cons v ws)
  let ?s = "\<lparr>s_index = index df, s_values = ewm_values (alpha_of_span v) cl\<rparr>"
  have s: "calc_ema df v = Inr ?s" using Cons.prems by (simp add: calc_ema_Inr)
  have cl1: "map_of (columns (setitem (col_ema v) ?s df)) ''close'' = Some cl"
    using Cons.prems(1) col_ema_not_price(1)[of v] by (simp add: setitem_lookup)
  from Cons.IH[OF cl1] Cons.prems(2) s show ?case by simp
qed

lemma add_emas_bad_span:
  "map_of (columns df) ''close'' = Some cl \<Longrightarrow> \<exists>w\<in>set ws. w < 1 \<Longrightarrow>
   add_emas ws df = Inl (ValueError ''span must satisfy: span >= 1'')"
proof (induction ws arbitrary: df)
  case Nil
  then show ?case by simp
next
  case (Cons v ws)
  show ?case
  proof (cases "v < 1")
    case True
    with Cons.prems(1) show ?thesis by (simp add: calc_ema_bad_span)
  next
    case False
    let ?s = "\<lparr>s_index = index df, s_values = ewm_values (alpha_of_span v) cl\<rparr>"
    have s: "calc_ema df v = Inr ?s" using Cons.prems False by (simp add: calc_ema_Inr)
    have cl1: "map_of (columns (setitem (col_ema v) ?s df)) ''close'' = Some cl"
      using Cons.prems(1) col_ema_not_price(1)[of v] by (simp add: setitem_lookup)
    from Cons.prems(2) False have "\<exists>w\<in>set ws. w < 1" by auto
    from Cons.IH[OF cl1 this] s show ?thesis by simp
  qed
qed

lemma add_emas_needs_close:
  "add_emas (v # ws) df = Inr df' \<Longrightarrow> \<exists>cl. map_of (columns df) ''close'' = Some cl"
  by (auto split: sum.splits dest: calc_ema_InrD)

lemma intervals_pos: "\<forall>w\<in>set intervals. 1 \<le> w"
  by (simp add: intervals_def)

lemma TechnicalIndicator_needs_close:
  "TechnicalIndicator df = Inr df' \<Longrightarrow> \<exists>cl. map_of (columns df) ''close'' = Some cl"
  unfolding TechnicalIndicator_def intervals_def by (rule add_emas_needs_close)

lemma ex_close: "map_of (columns example_prices) ''close'' = Some [10, 20, 40]"
  by (simp add: example_prices_def)



lemma TechnicalIndicator_example: "\<exists>df'. TechnicalIndicator example_prices = Inr df'"
  unfolding TechnicalIndicator_def by (rule add_emas_total[OF ex_close intervals_pos])


section \<open>The claims about the indicator computation\<close>

text \<open>
  Claim C1, as the specification states it: \<open>ema[0] = close[0]\<close> and
  \<open>ema[t] = (2/(w+1)) * close[t] + (1 - 2/(w+1)) * ema[t-1]\<close> for \<open>t > 0\<close>, within
  \<open>1e-9\<close>.  On the closes 10, 20, 40 and the span 9 the program's second value is
  \<open>140/9\<close>, while the stated recurrence gives 12.
\<close>

theorem ema_recurrence_counterexample:
  "getitem example_prices ''close'' =
     Inr \<lparr>s_index = index example_prices, s_values = [10, 20, 40]\<rparr>
   \<and> calc_ema example_prices 9 =
     Inr \<lparr>s_index = index example_prices, s_values = [10, 140 / 9, 1560 / 61]\<rparr>
   \<and> \<not> \<bar>[10, 140 / 9, 1560 / 61] ! 1
         - (2 / (9 + 1) * [10, 20, 40] ! 1 + (1 - 2 / (9 + 1)) * [10, 140 / 9, 1560 / 61] ! 0)\<bar>
       \<le> (1 / 10 ^ 9 :: real)"
  by (simp add: calc_ema_def getitem_def ewm_mean_def alpha_of_span_def example_prices_def)

text \<open>
  Claim C1, amended: the series \<open>ema_w\<close> that the program stores starts at the first
  close and is, at every position \<open>t\<close>, the mean of the closes up to \<open>t\<close> weighted by
  the powers of \<open>1 - \<alpha>\<close> with \<open>\<alpha> = 2/(w+1)\<close>, divided by the sum of these
  weights.  It obeys the stated recurrence with \<open>\<alpha>\<close> replaced by the weight
  \<open>1 / (\<Sum>i\<le>t. (1 - \<alpha>)^i)\<close> of the newest point, which depends on \<open>t\<close>.
\<close>

theorem ema_adjusted_recurrence:
  assumes "TechnicalIndicator df = Inr df'" and "w \<in> set intervals"
    and "getitem df ''close'' = Inr close" and "getitem df' (col_ema w) = Inr ema"
    and "t < length (s_values close)"
  shows "s_values ema ! 0 = s_values close ! 0
       \<and> s_values ema ! t =
           (\<Sum>i\<le>t. (1 - 2 / (real_of_int w + 1)) ^ (t - i) * s_values close ! i)
           / (\<Sum>i\<le>t. (1 - 2 / (real_of_int w + 1)) ^ i)
       \<and> (0 < t \<longrightarrow> s_values ema ! t =
             (1 / (\<Sum>i\<le>t. (1 - 2 / (real_of_int w + 1)) ^ i)) * s_values close ! t
             + (1 - 1 / (\<Sum>i\<le>t. (1 - 2 / (real_of_int w + 1)) ^ i)) * s_values ema ! (t - 1))"
proof -
  let ?a = "alpha_of_span w"
  have a_def: "?a = 2 / (real_of_int w + 1)" by (simp add: alpha_of_span_def)
  obtain cl where cl: "map_of (columns df) ''close'' = Some cl" and c: "s_values close = cl"
    using assms(3) by (auto simp: getitem_def split: option.splits)
  have r: "add_emas intervals df = Inr df'" using assms(1) by (simp add: TechnicalIndicator_def)
  have e: "s_values ema = ewm_values ?a cl"
    using add_emas_lookup[OF r cl assms(2)] assms(4) by (auto simp: getitem_def)
  have a: "0 \<le> 1 - ?a" using assms(2) intervals_pos by (intro alpha_of_span_range) blast
  have t: "t < length cl" using assms(5) c by simp
  then have z: "0 < length cl" by (cases cl) simp_all
  have n: "ewm_values ?a cl ! k = wnum ?a cl k / wden ?a k" if "k < length cl" for k
    using a that by (rule ewm_values_nth)
  have "s_values ema ! 0 = cl ! 0" using n[OF z] e by (simp add: wnum_0 wden_0)
  moreover have "s_values ema ! t = wnum ?a cl t / wden ?a t" using n[OF t] e by simp
  moreover have "s_values ema ! t =
      (1 / wden ?a t) * cl ! t + (1 - 1 / wden ?a t) * s_values ema ! (t - 1)" if "0 < t"
  proof -
    have "t - 1 < length cl" using t by simp
    from n[OF this] n[OF t] e adjusted_recurrence[OF a that, of cl] show ?thesis by simp
  qed
  ultimately show ?thesis unfolding c wnum_def wden_def a_def by blast
qed

theorem ema_adjusted_recurrence_witness:
  "\<exists>df'. TechnicalIndicator example_prices = Inr df' \<and> 9 \<in> set intervals
     \<and> getitem example_prices ''close'' =
         Inr \<lparr>s_index = index example_prices, s_values = [10, 20, 40]\<rparr>
     \<and> (\<exists>ema. getitem df' ''ema_9'' = Inr ema \<and> (2::nat) < length [10, 20, 40 :: real]
          \<and> s_values ema ! 0 = 10 \<and> s_values ema ! 2 = 1560 / 61)"
proof -
  from TechnicalIndicator_example obtain df' where r: "TechnicalIndicator example_prices = Inr df'" ..
  have m: "(9::int) \<in> set intervals" by (simp add: intervals_def)
  have n: "col_ema 9 = ''ema_9''"
    by (simp add: col_ema_def str_int_def digits_of.simps digit_char_def)
  have c: "getitem example_prices ''close'' =
         Inr \<lparr>s_index = index example_prices, s_values = [10, 20, 40]\<rparr>"
    by (simp add: getitem_def example_prices_def)
  have "add_emas intervals example_prices = Inr df'" using r by (simp add: TechnicalIndicator_def)
  from add_emas_lookup[OF this ex_close m] obtain ema where
    e: "getitem df' (col_ema 9) = Inr ema" by (simp add: getitem_def)
  have l: "(2::nat) < length (s_values \<lparr>s_index = index example_prices, s_values = [10, 20, 40 :: real]\<rparr>)"
    by simp
  from ema_adjusted_recurrence[OF r m c e l]
  have "s_values ema ! 0 = 10" "s_values ema ! 2 = 1560 / 61"
    by (simp_all add: atMost_Suc eval_nat_numeral)
  with r m c e n show ?thesis by auto
qed


text \<open>
  Claim C4: every indicator series that the computation produces, both the Series
  that \<open>calc_ema\<close> returns and the column \<open>ema_w\<close> read back from the frame, has the
  index of the close-price Series and as many values.
\<close>

theorem indicator_index_alignment:
  assumes "TechnicalIndicator df = Inr df'" and "w \<in> set intervals"
  shows "\<exists>close ema. getitem df ''close'' = Inr close \<and> calc_ema df w = Inr ema
           \<and> getitem df' (col_ema w) = Inr ema
           \<and> s_index ema = s_index close \<and> s_index ema = index df
           \<and> length (s_values ema) = length (s_values close)"
proof -
  from TechnicalIndicator_needs_close[OF assms(1)] obtain cl where
    cl: "map_of (columns df) ''close'' = Some cl" by blast
  have r: "add_emas intervals df = Inr df'" using assms(1) by (simp add: TechnicalIndicator_def)
  have w: "1 \<le> w" using assms(2) intervals_pos by blast
  let ?ema = "\<lparr>s_index = index df, s_values = ewm_values (alpha_of_span w) cl\<rparr>"
  have "getitem df ''close'' = Inr \<lparr>s_index = index df, s_values = cl\<rparr>"
    using cl by (simp add: getitem_def)
  moreover have "calc_ema df w = Inr ?ema" using cl w by (rule calc_ema_Inr)
  moreover have "getitem df' (col_ema w) = Inr ?ema"
    using add_emas_lookup[OF r cl assms(2)] add_emas_index[OF r] by (simp add: getitem_def)
  ultimately show ?thesis by (simp add: length_ewm_values)
qed

theorem indicator_index_alignment_witness:
  "\<exists>df'. TechnicalIndicator example_prices = Inr df' \<and> 21 \<in> set intervals
     \<and> (\<exists>close ema. getitem example_prices ''close'' = Inr close
          \<and> calc_ema example_prices 21 = Inr ema
          \<and> getitem df' ''ema_21'' = Inr ema
          \<and> s_index ema = s_index close \<and> s_index ema = index example_prices
          \<and> length (s_values ema) = length (s_values close))"
proof -
  from TechnicalIndicator_example obtain df' where r: "TechnicalIndicator example_prices = Inr df'" ..
  have m: "(21::int) \<in> set intervals" by (simp add: intervals_def)
  have n: "col_ema 21 = ''ema_21''"
    by (simp add: col_ema_def str_int_def digits_of.simps digit_char_def)
  from indicator_index_alignment[OF r m] r m n show ?thesis by metis
qed




text \<open>
  Claim C8: on an empty price table the indicator computation raises no error and
  every configured window yields an empty series.
\<close>

theorem empty_series_vacuity:
  assumes "index df = []" and "map_of (columns df) ''close'' = Some []"
  shows "\<exists>df'. TechnicalIndicator df = Inr df' \<and> index df' = []
           \<and> (\<forall>w\<in>set intervals. getitem df' (col_ema w) = Inr \<lparr>s_index = [], s_values = []\<rparr>)"
proof -
  from add_emas_total[OF assms(2) intervals_pos] obtain df' where
    r: "add_emas intervals df = Inr df'" by blast
  have i: "index df' = []" using add_emas_index[OF r] assms(1) by simp
  have "getitem df' (col_ema w) = Inr \<lparr>s_index = [], s_values = []\<rparr>" if "w \<in> set intervals" for w
    using add_emas_lookup[OF r assms(2) that] i by (simp add: getitem_def)
  with r i show ?thesis by (simp add: TechnicalIndicator_def)
qed

theorem empty_series_vacuity_witness:
  "index empty_prices = [] \<and> map_of (columns empty_prices) ''close'' = Some []
   \<and> (\<exists>df'. TechnicalIndicator empty_prices = Inr df' \<and> index df' = []
         \<and> getitem df' ''ema_9'' = Inr \<lparr>s_index = [], s_values = []\<rparr>
         \<and> getitem df' ''ema_200'' = Inr \<lparr>s_index = [], s_values = []\<rparr>)"
proof -
  have h1: "index empty_prices = []" by (simp add: empty_prices_def)
  have h2: "map_of (columns empty_prices) ''close'' = Some []" by (simp add: empty_prices_def)
  have n9: "col_ema 9 = ''ema_9''" and n200: "col_ema 200 = ''ema_200''"
    by (simp_all add: col_ema_def str_int_def digits_of.simps digit_char_def)
  have m: "(9::int) \<in> set intervals" "(200::int) \<in> set intervals" by (simp_all add: intervals_def)
  from empty_series_vacuity[OF h1 h2] m n9 n200 h1 h2 show ?thesis by metis
qed

section \<open>Properties of the yearly split\<close>

lemma slice_sorted_filter:
  fixes xs :: "'a::linorder list"
  assumes "sorted xs" and "lo \<le> hi"
  shows "take (length (takeWhile (\<lambda>t. t \<le> hi) xs) - length (takeWhile (\<lambda>t. t < lo) xs))
              (drop (length (takeWhile (\<lambda>t. t < lo) xs)) xs)
       = filter (\<lambda>t. lo \<le> t \<and> t \<le> hi) xs"
  using assms(1)
proof (induction xs)
  case Nil
  then show ?case by simp
next
  case (Cons x xs)
  then have s: "sorted xs" and le: "\<forall>y\<in>set xs. x \<le> y" by simp_all
  note IH = Cons.IH[OF s]
  show ?case
  proof (cases "x < lo")
    case True
    with assms(2) have "x \<le> hi" by simp
    with True IH show ?thesis by simp
  next
    case False
    then have lox: "lo \<le> x" by simp
    have nolow: "takeWhile (\<lambda>t. t < lo) xs = []"
      using le lox by (cases xs) auto
    show ?thesis
    proof (cases "x \<le> hi")
      case True
      with False lox IH nolow show ?thesis by simp
    next
      case False
      then have "\<forall>y\<in>set xs. \<not> y \<le> hi" using le by auto
      then have "filter (\<lambda>t. lo \<le> t \<and> t \<le> hi) xs = []" by (simp add: filter_empty_conv)
      with False \<open>\<not> x < lo\<close> show ?thesis by simp
    qed
  qed
qed

lemma bounds_le: "since_bound y \<le> till_bound y"
  by (simp add: since_bound_def till_bound_def)

lemma in_year_window:
  "valid_ts t \<Longrightarrow> (since_bound y \<le> t \<and> t \<le> till_bound y) = (ts_year t = y)"
  by (cases t) (auto simp: valid_ts_def since_bound_def till_bound_def ts_year_def)

lemma loc_slice_sorted_index:
  assumes "sorted (index df)"
  shows "\<exists>part. loc_slice (since_bound y) (till_bound y) df = Inr part
       \<and> index part = filter (\<lambda>t. since_bound y \<le> t \<and> t \<le> till_bound y) (index df)
       \<and> map fst (columns part) = map fst (columns df)"
  using assms slice_sorted_filter[OF assms bounds_le, of y]
  by (simp add: loc_slice_def iloc_rows_def searchsorted_left_def searchsorted_right_def comp_def)

lemma loc_slice_names:
  "loc_slice a b df = Inr part \<Longrightarrow> map fst (columns part) = map fst (columns df)"
  by (auto simp: loc_slice_def iloc_rows_def mask_rows_def comp_def split: if_splits)

lemma loc_slice_sorted:
  "sorted (index df) \<Longrightarrow> loc_slice (since_bound y) (till_bound y) df = Inr (year_rows df y)"
  by (simp add: loc_slice_def year_rows_def)

lemma index_year_rows:
  assumes "sorted (index df)"
  shows "index (year_rows df y) = filter (\<lambda>t. since_bound y \<le> t \<and> t \<le> till_bound y) (index df)"
  using slice_sorted_filter[OF assms bounds_le, of y]
  by (simp add: year_rows_def iloc_rows_def searchsorted_left_def searchsorted_right_def)

lemma split_key_inj: "split_key y = split_key z \<Longrightarrow> y = z"
  by (simp add: split_key_def str_int_inj)

lemma split_loop_sorted:
  assumes "sorted (index df)"
  shows "\<exists>sd'. split_loop ys df sd = Inr sd'
           \<and> (\<forall>y\<in>set ys. map_of sd' (split_key y) = Some (year_rows df y))
           \<and> (\<forall>k. k \<notin> split_key ` set ys \<longrightarrow> map_of sd' k = map_of sd k)"
proof (induction ys arbitrary: sd)
  case Nil
  show ?case by simp
next
  case (Cons y ys)
  let ?sd1 = "AList.update (split_key y) (year_rows df y) sd"
  from Cons.IH[of ?sd1] obtain sd' where r: "split_loop ys df ?sd1 = Inr sd'"
    and a: "\<forall>z\<in>set ys. map_of sd' (split_key z) = Some (year_rows df z)"
    and b: "\<forall>k. k \<notin> split_key ` set ys \<longrightarrow> map_of sd' k = map_of ?sd1 k"
    by blast
  have s: "split_loop (y # ys) df sd = Inr sd'"
    using r by (simp add: loc_slice_sorted[OF assms])
  have y: "map_of sd' (split_key y) = Some (year_rows df y)"
  proof (cases "y \<in> set ys")
    case True
    with a show ?thesis by blast
  next
    case False
    then have "split_key y \<notin> split_key ` set ys" by (auto dest: split_key_inj)
    with b show ?thesis by (simp add: update_conv')
  qed
  have o: "\<forall>k. k \<notin> split_key ` set (y # ys) \<longrightarrow> map_of sd' k = map_of sd k"
    using b by (auto simp: update_conv')
  from s a y o show ?case by auto
qed

lemma split_by_intervals_sorted:
  assumes "sorted (index df)"
  shows "\<exists>sp. split_by_intervals (TimeSeriesSplit_init df ys) = Inr sp
           \<and> tss_data sp = df \<and> tss_intervals sp = ys
           \<and> (\<forall>k p. map_of (tss_split_data sp) k = Some p
                  \<longleftrightarrow> (\<exists>y\<in>set ys. k = split_key y \<and> p = year_rows df y))"
proof -
  from split_loop_sorted[OF assms, of ys "[]"] obtain sd' where r: "split_loop ys df [] = Inr sd'"
    and a: "\<forall>y\<in>set ys. map_of sd' (split_key y) = Some (year_rows df y)"
    and b: "\<forall>k. k \<notin> split_key ` set ys \<longrightarrow> map_of sd' k = None"
    by auto
  have "map_of sd' k = Some p \<longleftrightarrow> (\<exists>y\<in>set ys. k = split_key y \<and> p = year_rows df y)" for k p
  proof (cases "k \<in> split_key ` set ys")
    case True
    then obtain y where y: "y \<in> set ys" "k = split_key y" by auto
    with a have "map_of sd' k = Some (year_rows df y)" by simp
    with y show ?thesis by (auto dest: split_key_inj)
  next
    case False
    with b show ?thesis by auto
  qed
  with r show ?thesis by (simp add: split_by_intervals_def TimeSeriesSplit_init_def)
qed


lemma ex_sorted: "sorted (index example_prices)"
  by (simp add: example_prices_def)

lemma ex_valid: "\<forall>t\<in>set (index example_prices). valid_ts t"
  by (simp add: example_prices_def valid_ts_def)

lemma split_key_simps: "split_key 2020 = ''2020_data''" "split_key 2021 = ''2021_data''" "split_key 2022 = ''2022_data''"
  by (simp_all add: split_key_def str_int_def digits_of.simps digit_char_def)

lemma ex_rows_2020: "year_rows example_prices 2020 =
   \<lparr>index = [(2020, 12, 31, 22, 0, 0, 0), (2020, 12, 31, 23, 59, 59, 0)],
    columns = [(''open'', [10, 10]), (''high'', [12, 21]), (''low'', [9, 10]), (''close'', [10, 20])]\<rparr>"
  by (simp add: year_rows_def example_prices_def iloc_rows_def searchsorted_left_def searchsorted_right_def since_bound_def till_bound_def)

lemma ex_rows_2021: "year_rows example_prices 2021 =
   \<lparr>index = [(2021, 1, 1, 0, 0, 0, 0)],
    columns = [(''open'', [20]), (''high'', [41]), (''low'', [19]), (''close'', [40])]\<rparr>"
  by (simp add: year_rows_def example_prices_def iloc_rows_def searchsorted_left_def searchsorted_right_def since_bound_def till_bound_def)

lemma ex_rows_2022: "year_rows example_prices 2022 =
   \<lparr>index = [],
    columns = [(''open'', []), (''high'', []), (''low'', []), (''close'', [])]\<rparr>"
  by (simp add: year_rows_def example_prices_def iloc_rows_def searchsorted_left_def searchsorted_right_def since_bound_def till_bound_def)

lemma ex_split: "split_by_intervals (TimeSeriesSplit_init example_prices [2021, 2022]) =
  Inr \<lparr>tss_data = example_prices, tss_intervals = [2021, 2022],
       tss_split_data = [(''2021_data'', year_rows example_prices 2021), (''2022_data'', year_rows example_prices 2022)]\<rparr>"
  by (simp add: split_by_intervals_def TimeSeriesSplit_init_def loc_slice_sorted[OF ex_sorted] split_key_simps)

lemma year_end_in_window:
  "(since_bound y \<le> (Y, 12, 31, 23, 59, 59, 0) \<and> (Y, 12, 31, 23, 59, 59, 0) \<le> till_bound y) = (y = Y)"
  by (auto simp: since_bound_def till_bound_def)

lemma year_start_in_window:
  "(since_bound y \<le> (Y, 1, 1, 0, 0, 0, 0) \<and> (Y, 1, 1, 0, 0, 0, 0) \<le> till_bound y) = (y = Y)"
  by (auto simp: since_bound_def till_bound_def)


lemma years_in_range: "\<forall>y\<in>set years. year_in_range y"
  by (simp add: years_def year_in_range_def)


lemma ex_cover:
  "{t \<in> set (index example_prices). ts_year t \<in> set [2021, 2022]} = {(2021, 1, 1, 0, 0, 0, 0)}"
proof -
  have "{t \<in> set (index example_prices). ts_year t \<in> set [2021, 2022]}
      = set (filter (\<lambda>t. ts_year t \<in> set [2021, 2022]) (index example_prices))"
    by (simp only: set_filter)
  also have "\<dots> = {(2021, 1, 1, 0, 0, 0, 0)}"
    by (simp add: example_prices_def ts_year_def)
  finally show ?thesis .
qed


section \<open>The claims about the yearly split\<close>

text \<open>
  Claim C2: on an index sorted by timestamp the split succeeds, and for every
  configured year \<open>y\<close> the partition of \<open>y\<close> holds the instant
  \<open>Y-12-31 23:59:59\<close> exactly when the input holds it and \<open>y = Y\<close>, and the instant
  \<open>(Y+1)-01-01 00:00:00\<close> exactly when the input holds it and \<open>y = Y + 1\<close>.  The
  witness is the pair 2020-12-31 23:59:59 and 2021-01-01 00:00:00 under the module's
  years.
\<close>

theorem partition_boundary:
  assumes "sorted (index df)" and "\<forall>y\<in>set ys. year_in_range y"
  shows "\<exists>sp. split_by_intervals (TimeSeriesSplit_init df ys) = Inr sp
     \<and> (\<forall>y\<in>set ys. \<exists>part. map_of (tss_split_data sp) (split_key y) = Some part
           \<and> ((Y, 12, 31, 23, 59, 59, 0) \<in> set (index part)
                \<longleftrightarrow> (Y, 12, 31, 23, 59, 59, 0) \<in> set (index df) \<and> y = Y)
           \<and> ((Y + 1, 1, 1, 0, 0, 0, 0) \<in> set (index part)
                \<longleftrightarrow> (Y + 1, 1, 1, 0, 0, 0, 0) \<in> set (index df) \<and> y = Y + 1))"
proof -
  from split_by_intervals_sorted[OF assms(1), of ys] obtain sp where
    r: "split_by_intervals (TimeSeriesSplit_init df ys) = Inr sp"
    and c: "\<And>k p. map_of (tss_split_data sp) k = Some p
                  \<longleftrightarrow> (\<exists>y\<in>set ys. k = split_key y \<and> p = year_rows df y)"
    by blast
  have "\<exists>part. map_of (tss_split_data sp) (split_key y) = Some part
           \<and> ((Y, 12, 31, 23, 59, 59, 0) \<in> set (index part)
                \<longleftrightarrow> (Y, 12, 31, 23, 59, 59, 0) \<in> set (index df) \<and> y = Y)
           \<and> ((Y + 1, 1, 1, 0, 0, 0, 0) \<in> set (index part)
                \<longleftrightarrow> (Y + 1, 1, 1, 0, 0, 0, 0) \<in> set (index df) \<and> y = Y + 1)"
    if y: "y \<in> set ys" for y
  proof -
    have m: "map_of (tss_split_data sp) (split_key y) = Some (year_rows df y)"
      using c y by blast
    have e: "(Y, 12, 31, 23, 59, 59, 0) \<in> set (index (year_rows df y))
                \<longleftrightarrow> (Y, 12, 31, 23, 59, 59, 0) \<in> set (index df) \<and> y = Y"
      unfolding index_year_rows[OF assms(1)] set_filter using year_end_in_window[of y Y] by blast
    have s: "(Y + 1, 1, 1, 0, 0, 0, 0) \<in> set (index (year_rows df y))
                \<longleftrightarrow> (Y + 1, 1, 1, 0, 0, 0, 0) \<in> set (index df) \<and> y = Y + 1"
      unfolding index_year_rows[OF assms(1)] set_filter using year_start_in_window[of y "Y + 1"] by blast
    from m e s show ?thesis by blast
  qed
  with r show ?thesis by blast
qed


theorem partition_boundary_witness:
  "sorted (index example_prices) \<and> list_all year_in_range years
   \<and> (\<exists>sp p20 p21. split_by_intervals (TimeSeriesSplit_init example_prices years) = Inr sp
        \<and> map_of (tss_split_data sp) ''2020_data'' = Some p20
        \<and> map_of (tss_split_data sp) ''2021_data'' = Some p21
        \<and> (2020, 12, 31, 23, 59, 59, 0) \<in> set (index p20)
        \<and> (2020, 12, 31, 23, 59, 59, 0) \<notin> set (index p21)
        \<and> (2021, 1, 1, 0, 0, 0, 0) \<in> set (index p21)
        \<and> (2021, 1, 1, 0, 0, 0, 0) \<notin> set (index p20))"
proof -
  from partition_boundary[OF ex_sorted years_in_range, of 2020] obtain sp where
    r: "split_by_intervals (TimeSeriesSplit_init example_prices years) = Inr sp"
    and b: "\<forall>y\<in>set years. \<exists>part. map_of (tss_split_data sp) (split_key y) = Some part
           \<and> ((2020, 12, 31, 23, 59, 59, 0) \<in> set (index part)
                \<longleftrightarrow> (2020, 12, 31, 23, 59, 59, 0) \<in> set (index example_prices) \<and> y = 2020)
           \<and> ((2020 + 1, 1, 1, 0, 0, 0, 0) \<in> set (index part)
                \<longleftrightarrow> (2020 + 1, 1, 1, 0, 0, 0, 0) \<in> set (index example_prices) \<and> y = 2020 + 1)"
    by blast
  have i: "(2020, 12, 31, 23, 59, 59, 0) \<in> set (index example_prices)"
    "(2020 + 1, 1, 1, 0, 0, 0, 0) \<in> set (index example_prices)"
    by (simp_all add: example_prices_def)
  have y20: "(2020::int) \<in> set years" and y21: "(2021::int) \<in> set years"
    by (simp_all add: years_def)
  from bspec[OF b y20] obtain p20 where m20: "map_of (tss_split_data sp) (split_key 2020) = Some p20"
    and a20: "(2020, 12, 31, 23, 59, 59, 0) \<in> set (index p20)
                \<longleftrightarrow> (2020, 12, 31, 23, 59, 59, 0) \<in> set (index example_prices) \<and> (2020::int) = 2020"
    and b20: "(2020 + 1, 1, 1, 0, 0, 0, 0) \<in> set (index p20)
                \<longleftrightarrow> (2020 + 1, 1, 1, 0, 0, 0, 0) \<in> set (index example_prices) \<and> (2020::int) = 2020 + 1"
    by blast
  from bspec[OF b y21] obtain p21 where m21: "map_of (tss_split_data sp) (split_key 2021) = Some p21"
    and a21: "(2020, 12, 31, 23, 59, 59, 0) \<in> set (index p21)
                \<longleftrightarrow> (2020, 12, 31, 23, 59, 59, 0) \<in> set (index example_prices) \<and> (2021::int) = 2020"
    and b21: "(2020 + 1, 1, 1, 0, 0, 0, 0) \<in> set (index p21)
                \<longleftrightarrow> (2020 + 1, 1, 1, 0, 0, 0, 0) \<in> set (index example_prices) \<and> (2021::int) = 2020 + 1"
    by blast
  have c1: "(2020, 12, 31, 23, 59, 59, 0) \<in> set (index p20)" using a20 i(1) by simp
  have c2: "(2020, 12, 31, 23, 59, 59, 0) \<notin> set (index p21)" using a21 by simp
  have c3: "(2020 + 1, 1, 1, 0, 0, 0, 0) \<in> set (index p21)" using b21 i(2) by simp
  have c4: "(2020 + 1, 1, 1, 0, 0, 0, 0) \<notin> set (index p20)" using b20 by simp
  have e: "(2020 + 1, 1, 1, 0, 0, 0, 0) = ((2021, 1, 1, 0, 0, 0, 0) :: timestamp)" by simp
  have l: "list_all year_in_range years" by (simp add: years_def year_in_range_def)
  from m20 m21 have m: "map_of (tss_split_data sp) ''2020_data'' = Some p20"
    "map_of (tss_split_data sp) ''2021_data'' = Some p21"
    by (simp_all add: split_key_simps)
  from c3 c4 have c5: "(2021, 1, 1, 0, 0, 0, 0) \<in> set (index p21)"
    and c6: "(2021, 1, 1, 0, 0, 0, 0) \<notin> set (index p20)" unfolding e by blast+
  from ex_sorted l r m c1 c2 c5 c6 show ?thesis by blast
qed

text \<open>
  Claim C3: on an index of unique ascending timestamps the split succeeds, the
  timestamps of all partitions together are exactly the input timestamps whose
  calendar year is configured, and the partitions of two different keys share no
  timestamp.
\<close>

theorem partition_disjoint_coverage:
  assumes "sorted (index df)" and "distinct (index df)"
    and "\<forall>t\<in>set (index df). valid_ts t" and "\<forall>y\<in>set ys. year_in_range y"
  shows "\<exists>sp. split_by_intervals (TimeSeriesSplit_init df ys) = Inr sp
     \<and> (\<Union>part \<in> ran (map_of (tss_split_data sp)). set (index part))
          = {t \<in> set (index df). ts_year t \<in> set ys}
     \<and> (\<forall>k1 k2 p1 p2. map_of (tss_split_data sp) k1 = Some p1
            \<and> map_of (tss_split_data sp) k2 = Some p2 \<and> k1 \<noteq> k2
          \<longrightarrow> set (index p1) \<inter> set (index p2) = {})"
proof -
  from split_by_intervals_sorted[OF assms(1), of ys] obtain sp where
    r: "split_by_intervals (TimeSeriesSplit_init df ys) = Inr sp"
    and c: "\<And>k p. map_of (tss_split_data sp) k = Some p
                  \<longleftrightarrow> (\<exists>y\<in>set ys. k = split_key y \<and> p = year_rows df y)"
    by blast
  have ix: "set (index (year_rows df y)) = {t \<in> set (index df). ts_year t = y}" for y
  proof -
    have "(since_bound y \<le> t \<and> t \<le> till_bound y) = (ts_year t = y)" if "t \<in> set (index df)" for t
      using assms(3) that by (intro in_year_window) blast
    then show ?thesis unfolding index_year_rows[OF assms(1)] set_filter by blast
  qed
  have rn: "ran (map_of (tss_split_data sp)) = year_rows df ` set ys"
    unfolding ran_def c by blast
  have "(\<Union>part \<in> ran (map_of (tss_split_data sp)). set (index part))
          = {t \<in> set (index df). ts_year t \<in> set ys}"
    unfolding rn image_image UN_simps ix by blast
  moreover have "set (index p1) \<inter> set (index p2) = {}"
    if "map_of (tss_split_data sp) k1 = Some p1" "map_of (tss_split_data sp) k2 = Some p2" "k1 \<noteq> k2"
    for k1 k2 p1 p2
  proof -
    from that c obtain y1 y2 where "k1 = split_key y1" "p1 = year_rows df y1"
      "k2 = split_key y2" "p2 = year_rows df y2" by blast
    with that(3) have "y1 \<noteq> y2" by auto
    then have "set (index (year_rows df y1)) \<inter> set (index (year_rows df y2)) = {}"
      unfolding ix by blast
    with \<open>p1 = _\<close> \<open>p2 = _\<close> show ?thesis by simp
  qed
  ultimately show ?thesis using r by blast
qed

theorem partition_disjoint_coverage_witness:
  "sorted (index example_prices) \<and> distinct (index example_prices)
   \<and> list_all valid_ts (index example_prices) \<and> list_all year_in_range [2021, 2022]
   \<and> (\<exists>sp p21 p22. split_by_intervals (TimeSeriesSplit_init example_prices [2021, 2022]) = Inr sp
        \<and> (\<Union>part \<in> ran (map_of (tss_split_data sp)). set (index part)) = {(2021, 1, 1, 0, 0, 0, 0)}
        \<and> map_of (tss_split_data sp) ''2021_data'' = Some p21
        \<and> map_of (tss_split_data sp) ''2022_data'' = Some p22
        \<and> set (index p21) \<inter> set (index p22) = {})"
proof -
  have d: "distinct (index example_prices)" by (simp add: example_prices_def)
  have y: "\<forall>y\<in>set [2021, 2022]. year_in_range y" by (simp add: year_in_range_def)
  from partition_disjoint_coverage[OF ex_sorted d ex_valid y] obtain sp where
    a: "split_by_intervals (TimeSeriesSplit_init example_prices [2021, 2022]) = Inr sp
      \<and> (\<Union>part \<in> ran (map_of (tss_split_data sp)). set (index part))
          = {t \<in> set (index example_prices). ts_year t \<in> set [2021, 2022]}
      \<and> (\<forall>k1 k2 p1 p2. map_of (tss_split_data sp) k1 = Some p1
            \<and> map_of (tss_split_data sp) k2 = Some p2 \<and> k1 \<noteq> k2
          \<longrightarrow> set (index p1) \<inter> set (index p2) = {})" ..
  from a have r: "split_by_intervals (TimeSeriesSplit_init example_prices [2021, 2022]) = Inr sp"
    by (rule conjunct1)
  from a have u: "(\<Union>part \<in> ran (map_of (tss_split_data sp)). set (index part))
          = {t \<in> set (index example_prices). ts_year t \<in> set [2021, 2022]}"
    by (rule conjunct1[OF conjunct2])
  from a have j: "\<forall>k1 k2 p1 p2. map_of (tss_split_data sp) k1 = Some p1
            \<and> map_of (tss_split_data sp) k2 = Some p2 \<and> k1 \<noteq> k2
          \<longrightarrow> set (index p1) \<inter> set (index p2) = {}"
    by (rule conjunct2[OF conjunct2])
  let ?p21 = "year_rows example_prices 2021" and ?p22 = "year_rows example_prices 2022"
  from r have "sp = \<lparr>tss_data = example_prices, tss_intervals = [2021, 2022],
       tss_split_data = [(''2021_data'', ?p21), (''2022_data'', ?p22)]\<rparr>"
    unfolding ex_split by simp
  then have sp: "tss_split_data sp = [(''2021_data'', ?p21), (''2022_data'', ?p22)]"
    by simp
  have m1: "map_of (tss_split_data sp) ''2021_data'' = Some ?p21"
    and m2: "map_of (tss_split_data sp) ''2022_data'' = Some ?p22"
    unfolding sp by simp_all
  have ne: "''2021_data'' \<noteq> ''2022_data''" by simp
  have dj: "set (index ?p21) \<inter> set (index ?p22) = {}"
    by (rule j[rule_format, of "''2021_data''" ?p21 "''2022_data''" ?p22]) (intro conjI m1 m2 ne)
  have u': "(\<Union>part \<in> ran (map_of (tss_split_data sp)). set (index part)) = {(2021, 1, 1, 0, 0, 0, 0)}"
    using u unfolding ex_cover .
  have l: "list_all valid_ts (index example_prices)" "list_all year_in_range [2021, 2022]"
    by (simp_all add: example_prices_def valid_ts_def year_in_range_def)
  have "\<exists>sp p21 p22. split_by_intervals (TimeSeriesSplit_init example_prices [2021, 2022]) = Inr sp
        \<and> (\<Union>part \<in> ran (map_of (tss_split_data sp)). set (index part)) = {(2021, 1, 1, 0, 0, 0, 0)}
        \<and> map_of (tss_split_data sp) ''2021_data'' = Some p21
        \<and> map_of (tss_split_data sp) ''2022_data'' = Some p22
        \<and> set (index p21) \<inter> set (index p22) = {}"
    apply (rule exI[of _ sp])
    apply (rule exI[of _ ?p21])
    apply (rule exI[of _ ?p22])
    apply (intro conjI)
    apply (rule r)
    apply (rule u')
    apply (rule m1)
    apply (rule m2)
    apply (rule dj)
    done
  with ex_sorted d l show ?thesis by (intro conjI)
qed

section \<open>Properties of the callback\<close>

lemma add_indicator_traces_Inr:
  "add_indicator_traces i cols yd fig = Inr fig' \<Longrightarrow>
   fig_template fig' = fig_template fig \<and> fig_rangeslider_visible fig' = fig_rangeslider_visible fig
   \<and> fig_height fig' = fig_height fig
   \<and> length (fig_data fig') = length (fig_data fig) + length cols
   \<and> take (length (fig_data fig)) (fig_data fig') = fig_data fig
   \<and> (\<forall>j<length cols. \<exists>vs. map_of (columns yd) (cols ! j) = Some vs
         \<and> fig_data fig' ! (length (fig_data fig) + j) = scatter_of yd (i + j) (cols ! j) vs)"
proof (induction cols arbitrary: i fig)
  case Nil
  then show ?case by simp
next
  case (Cons c cols)
  from Cons.prems obtain vs where vs: "map_of (columns yd) c = Some vs"
    and r: "add_indicator_traces (Suc i) cols yd (add_trace (scatter_of yd i c vs) fig) = Inr fig'"
    by (auto simp: getitem_def scatter_of_def split: option.splits)
  let ?f1 = "add_trace (scatter_of yd i c vs) fig"
  note IH = Cons.IH[OF r]
  have l1: "length (fig_data ?f1) = Suc (length (fig_data fig))" by (simp add: add_trace_def)
  have a: "fig_template fig' = fig_template fig" "fig_rangeslider_visible fig' = fig_rangeslider_visible fig"
    "fig_height fig' = fig_height fig"
    using IH by (simp_all add: add_trace_def)
  have b: "length (fig_data fig') = length (fig_data fig) + length (c # cols)"
    using IH l1 by simp
  have t1: "take (Suc (length (fig_data fig))) (fig_data fig') = fig_data fig @ [scatter_of yd i c vs]"
    using IH l1 by (simp add: add_trace_def)
  have c: "take (length (fig_data fig)) (fig_data fig') = fig_data fig"
  proof -
    have "take (length (fig_data fig)) (take (Suc (length (fig_data fig))) (fig_data fig')) = fig_data fig"
      unfolding t1 by simp
    then show ?thesis by (simp add: min_def)
  qed
  have h: "fig_data fig' ! length (fig_data fig) = scatter_of yd i c vs"
  proof -
    have "fig_data fig' ! length (fig_data fig)
        = take (Suc (length (fig_data fig))) (fig_data fig') ! length (fig_data fig)" by simp
    also have "\<dots> = scatter_of yd i c vs" unfolding t1 by simp
    finally show ?thesis .
  qed
  have d: "\<exists>vs'. map_of (columns yd) ((c # cols) ! j) = Some vs'
         \<and> fig_data fig' ! (length (fig_data fig) + j) = scatter_of yd (i + j) ((c # cols) ! j) vs'"
    if "j < length (c # cols)" for j
  proof (cases j)
    case 0
    with vs h show ?thesis by simp
  next
    case (Suc k)
    with that have "k < length cols" by simp
    with IH obtain vs' where "map_of (columns yd) (cols ! k) = Some vs'"
      "fig_data fig' ! (length (fig_data ?f1) + k) = scatter_of yd (Suc i + k) (cols ! k) vs'"
      by blast
    with Suc l1 show ?thesis by simp
  qed
  from a b c d show ?case by blast
qed

lemma add_indicator_traces_total:
  "\<forall>c\<in>set cols. c \<in> fst ` set (columns yd) \<Longrightarrow> \<exists>fig'. add_indicator_traces i cols yd fig = Inr fig'"
proof (induction cols arbitrary: i fig)
  case Nil
  show ?case by simp
next
  case (Cons c cols)
  from Cons.prems have "c \<in> fst ` set (columns yd)" by simp
  then obtain vs where "map_of (columns yd) c = Some vs"
    by (metis map_of_eq_None_iff not_Some_eq)
  moreover from Cons.prems have "\<forall>c\<in>set cols. c \<in> fst ` set (columns yd)" by simp
  ultimately show ?case using Cons.IH by (simp add: getitem_def)
qed

lemma add_indicator_traces_missing:
  "c \<in> set cols \<Longrightarrow> c \<notin> fst ` set (columns yd) \<Longrightarrow>
   \<exists>k. add_indicator_traces i cols yd fig = Inl (KeyError k) \<and> k \<in> set cols \<and> k \<notin> fst ` set (columns yd)"
proof (induction cols arbitrary: i fig)
  case Nil
  then show ?case by simp
next
  case (Cons x cols)
  show ?case
  proof (cases "map_of (columns yd) x")
    case None
    then have "x \<notin> fst ` set (columns yd)" by (simp add: map_of_eq_None_iff)
    with None show ?thesis by (simp add: getitem_def)
  next
    case (Some vs)
    then have "x \<in> fst ` set (columns yd)" by (metis map_of_eq_None_iff option.distinct(1))
    with Cons.prems have "c \<in> set cols" by auto
    from Cons.IH[OF this Cons.prems(2)] obtain k where
      "add_indicator_traces (Suc i) cols yd
         (add_trace (Scatter (index yd) vs ''lines'' x
            (color_palettes ! (i mod length color_palettes))) fig) = Inl (KeyError k)"
      "k \<in> set cols" "k \<notin> fst ` set (columns yd)" by blast
    with Some show ?thesis by (simp add: getitem_def)
  qed
qed

lemma update_layout_data: "fig_data (update_layout t v h fig) = fig_data fig"
  by (simp add: update_layout_def)

lemma display_take: "display_candlestick sd dm (take 5 sel) yr = display_candlestick sd dm sel yr"
proof -
  have "take 5 (take 5 sel) = take 5 sel" by simp
  then show ?thesis unfolding display_candlestick_def by (rule arg_cong)
qed

lemma display_InrD:
  assumes "display_candlestick sd dm sel yr = Inr (fig, cls)"
  shows "\<exists>yd candle fig0. map_of sd (yr @ ''_data'') = Some yd \<and> candlestick_of yd = Inr candle
          \<and> add_indicator_traces 0 (take 5 sel) yd (Figure candle) = Inr fig0
          \<and> fig_data fig = fig_data fig0"
  using assms
  by (auto simp: display_candlestick_def update_layout_data split: option.splits sum.splits if_splits)

lemma display_no_year:
  "map_of sd (yr @ ''_data'') = None \<Longrightarrow>
   display_candlestick sd dm sel yr = Inl (KeyError (yr @ ''_data''))"
  by (simp add: display_candlestick_def)

lemma display_missing:
  assumes "map_of sd (yr @ ''_data'') = Some yd" and "candlestick_of yd = Inr candle"
    and "n \<in> set (take 5 sel)" and "n \<notin> fst ` set (columns yd)"
  shows "\<exists>k. display_candlestick sd dm sel yr = Inl (KeyError k)
           \<and> k \<in> set (take 5 sel) \<and> k \<notin> fst ` set (columns yd)"
proof -
  from add_indicator_traces_missing[OF assms(3,4), of 0 "Figure candle"] obtain k where
    "add_indicator_traces 0 (take 5 sel) yd (Figure candle) = Inl (KeyError k)"
    "k \<in> set (take 5 sel)" "k \<notin> fst ` set (columns yd)" by blast
  with assms(1,2) show ?thesis by (simp add: display_candlestick_def)
qed

lemma display_total:
  assumes "map_of sd (yr @ ''_data'') = Some yd" and "candlestick_of yd = Inr candle"
    and "\<forall>n\<in>set (take 5 sel). n \<in> fst ` set (columns yd)"
  shows "\<exists>fig cls. display_candlestick sd dm sel yr = Inr (fig, cls)"
proof -
  from add_indicator_traces_total[OF assms(3), of 0 "Figure candle"] obtain fig0 where
    "add_indicator_traces 0 (take 5 sel) yd (Figure candle) = Inr fig0" by blast
  with assms(1,2) show ?thesis by (simp add: display_candlestick_def)
qed

lemma candlestick_of_total:
  assumes "{''open'', ''high'', ''low'', ''close''} \<subseteq> fst ` set (columns yd)"
  shows "\<exists>candle. candlestick_of yd = Inr candle"
proof -
  have "\<exists>vs. map_of (columns yd) n = Some vs" if "n \<in> fst ` set (columns yd)" for n
    using that by (metis map_of_eq_None_iff not_Some_eq)
  with assms obtain a b c d where "map_of (columns yd) ''open'' = Some a"
    "map_of (columns yd) ''high'' = Some b" "map_of (columns yd) ''low'' = Some c"
    "map_of (columns yd) ''close'' = Some d"
    by (metis insert_subset)
  then show ?thesis by (simp add: candlestick_of_def getattr_def)
qed


lemma col_ema_simps:
  "col_ema 9 = ''ema_9''" "col_ema 12 = ''ema_12''" "col_ema 21 = ''ema_21''"
  "col_ema 30 = ''ema_30''" "col_ema 50 = ''ema_50''" "col_ema 80 = ''ema_80''"
  "col_ema 100 = ''ema_100''" "col_ema 200 = ''ema_200''"
  by (simp_all add: col_ema_def str_int_def digits_of.simps digit_char_def)

lemma TechnicalIndicator_example_value: "TechnicalIndicator example_prices = Inr example_enriched"
  by (simp add: TechnicalIndicator_def intervals_def example_prices_def example_enriched_def
      calc_ema_def getitem_def ewm_mean_def setitem_def col_ema_simps alpha_of_span_def Let_def)


lemma enriched_sorted: "sorted (index example_enriched)"
  by (simp add: example_enriched_def)

lemma split_key_years:
  "split_key 2017 = ''2017_data''" "split_key 2018 = ''2018_data''" "split_key 2019 = ''2019_data''"
  "split_key 2020 = ''2020_data''" "split_key 2021 = ''2021_data''" "split_key 2022 = ''2022_data''"
  "split_key 2023 = ''2023_data''" "split_key 2024 = ''2024_data''"
  by (simp_all add: split_key_def str_int_def digits_of.simps digit_char_def)

lemma startup_example: "startup example_prices = Inr (example_enriched, example_split)"
  by (simp add: startup_def TechnicalIndicator_example_value split_by_intervals_def
      TimeSeriesSplit_init_def years_def loc_slice_sorted[OF enriched_sorted] split_key_years
      example_split_def)

lemma example_2020:
  "map_of example_split ''2020_data'' = Some
     \<lparr>index = [(2020, 12, 31, 22, 0, 0, 0), (2020, 12, 31, 23, 59, 59, 0)],
      columns = [(''open'', [10, 10]), (''high'', [12, 21]), (''low'', [9, 10]),
                 (''close'', [10, 20]),
                 (''ema_9'', [10, 140 / 9]), (''ema_12'', [10, 185 / 12]),
                 (''ema_21'', [10, 320 / 21]), (''ema_30'', [10, 91 / 6]),
                 (''ema_50'', [10, 151 / 10]), (''ema_80'', [10, 241 / 16]),
                 (''ema_100'', [10, 301 / 20]), (''ema_200'', [10, 601 / 40])]\<rparr>"
  by (simp add: example_split_def years_def split_key_years year_rows_def example_enriched_def
      iloc_rows_def searchsorted_left_def searchsorted_right_def since_bound_def till_bound_def)

lemma display_example_seven:
  "display_candlestick example_split []
     [''ema_9'', ''ema_12'', ''ema_21'', ''ema_30'', ''ema_50'', ''ema_80'', ''ema_100''] ''2020''
   = Inr (example_figure, ''light-mode'')"
  by (simp add: display_candlestick_def example_2020 candlestick_of_def getattr_def getitem_def
      Figure_def add_trace_def update_layout_def color_palettes_def example_figure_def)

lemma example_2020_names:
  "\<exists>yd candle. map_of example_split (''2020'' @ ''_data'') = Some yd \<and> candlestick_of yd = Inr candle
     \<and> (\<forall>n\<in>set [''ema_200'', ''ema_100'', ''ema_80'', ''ema_50'', ''ema_30''].
            n \<in> fst ` set (columns yd))
     \<and> ''ema_999'' \<notin> fst ` set (columns yd)"
  by (simp add: example_2020 candlestick_of_def getattr_def)


section \<open>The claims about the query\<close>

text \<open>
  Claim C5: a query that returns a figure returns the very figure that the query for
  the first five requested names returns; the figure holds the candlestick and then,
  for each of the first five names in the caller's order, the series of that name from
  the year's table.  Names after the fifth leave no trace.  The function has no state,
  so equal requests give equal results.
\<close>

theorem truncation_first_five:
  assumes "display_candlestick sd dm sel yr = Inr (fig, cls)"
  shows "display_candlestick sd dm (take 5 sel) yr = Inr (fig, cls)
       \<and> (\<exists>yd. map_of sd (yr @ ''_data'') = Some yd
            \<and> candlestick_of yd = Inr (fig_data fig ! 0)
            \<and> length (fig_data fig) = Suc (min 5 (length sel))
            \<and> (\<forall>j<min 5 (length sel). \<exists>vs.
                   getitem yd (sel ! j) = Inr \<lparr>s_index = index yd, s_values = vs\<rparr>
                 \<and> fig_data fig ! Suc j =
                     Scatter (index yd) vs ''lines'' (sel ! j) (color_palettes ! (j mod 5))))"
proof -
  from display_InrD[OF assms] obtain yd candle fig0 where
    y: "map_of sd (yr @ ''_data'') = Some yd" and c: "candlestick_of yd = Inr candle"
    and t: "add_indicator_traces 0 (take 5 sel) yd (Figure candle) = Inr fig0"
    and d: "fig_data fig = fig_data fig0" by blast
  note T = add_indicator_traces_Inr[OF t]
  have f0: "fig_data (Figure candle) = [candle]" by (simp add: Figure_def)
  have len: "length (fig_data fig) = Suc (min 5 (length sel))"
    using T d f0 by (simp add: min.commute)
  have "take 1 (fig_data fig0) = [candle]" using T f0 by simp
  then have h: "fig_data fig ! 0 = candle" using d
    by (metis length_Cons list.size(3) nth_Cons_0 nth_take zero_less_one One_nat_def lessI)
  have tr: "\<exists>vs. getitem yd (sel ! j) = Inr \<lparr>s_index = index yd, s_values = vs\<rparr>
                 \<and> fig_data fig ! Suc j =
                     Scatter (index yd) vs ''lines'' (sel ! j) (color_palettes ! (j mod 5))"
    if j: "j < min 5 (length sel)" for j
  proof -
    from j have j': "j < length (take 5 sel)" by (simp add: min.commute)
    with T obtain vs where "map_of (columns yd) (take 5 sel ! j) = Some vs"
      "fig_data fig0 ! (length (fig_data (Figure candle)) + j) = scatter_of yd (0 + j) (take 5 sel ! j) vs"
      by blast
    moreover have "take 5 sel ! j = sel ! j" using j by simp
    ultimately show ?thesis using d f0
      by (simp add: getitem_def scatter_of_def color_palettes_def)
  qed
  from assms y c h len tr show ?thesis by (auto simp: display_take)
qed

theorem truncation_first_five_witness:
  "display_candlestick example_split []
     [''ema_9'', ''ema_12'', ''ema_21'', ''ema_30'', ''ema_50'', ''ema_80'', ''ema_100''] ''2020''
     = Inr (example_figure, ''light-mode'')
   \<and> display_candlestick example_split []
       [''ema_9'', ''ema_12'', ''ema_21'', ''ema_30'', ''ema_50''] ''2020''
     = Inr (example_figure, ''light-mode'')
   \<and> map sc_name (tl (fig_data example_figure))
     = [''ema_9'', ''ema_12'', ''ema_21'', ''ema_30'', ''ema_50'']"
proof -
  from truncation_first_five[OF display_example_seven]
  have "display_candlestick example_split []
       (take 5 [''ema_9'', ''ema_12'', ''ema_21'', ''ema_30'', ''ema_50'', ''ema_80'', ''ema_100''])
       ''2020'' = Inr (example_figure, ''light-mode'')"
    by (rule conjunct1)
  then have "display_candlestick example_split []
       [''ema_9'', ''ema_12'', ''ema_21'', ''ema_30'', ''ema_50''] ''2020''
     = Inr (example_figure, ''light-mode'')" by simp
  moreover have "map sc_name (tl (fig_data example_figure))
     = [''ema_9'', ''ema_12'', ''ema_21'', ''ema_30'', ''ema_50'']"
    by (simp add: example_figure_def)
  ultimately show ?thesis using display_example_seven by simp
qed


text \<open>
  Claim C10: when the year is known, the price columns are there and the first five
  requested names are columns of the year's table, the query succeeds whatever names
  follow, with the result of the query for the five names alone.
\<close>

theorem unknown_beyond_fifth_ignored:
  assumes "map_of sd (yr @ ''_data'') = Some yd" and "candlestick_of yd = Inr candle"
    and "length first = 5" and "\<forall>n\<in>set first. n \<in> fst ` set (columns yd)"
  shows "\<exists>fig cls. display_candlestick sd dm (first @ rest) yr = Inr (fig, cls)
           \<and> display_candlestick sd dm first yr = Inr (fig, cls)"
proof -
  have t: "take 5 (first @ rest) = first" using assms(3) by simp
  have "\<forall>n\<in>set (take 5 first). n \<in> fst ` set (columns yd)" using assms(3,4) by simp
  from display_total[OF assms(1,2) this, of dm] obtain fig cls where
    r: "display_candlestick sd dm first yr = Inr (fig, cls)" by blast
  moreover have "display_candlestick sd dm (first @ rest) yr = display_candlestick sd dm first yr"
    using display_take[of sd dm "first @ rest" yr] t by simp
  ultimately show ?thesis by simp
qed

theorem unknown_beyond_fifth_ignored_witness:
  "length [''ema_200'', ''ema_100'', ''ema_80'', ''ema_50'', ''ema_30''] = 5
   \<and> (\<exists>fig cls.
         display_candlestick example_split [''dark'']
           ([''ema_200'', ''ema_100'', ''ema_80'', ''ema_50'', ''ema_30''] @ [''ema_999'']) ''2020''
           = Inr (fig, cls)
       \<and> display_candlestick example_split [''dark'']
           [''ema_200'', ''ema_100'', ''ema_80'', ''ema_50'', ''ema_30''] ''2020''
           = Inr (fig, cls))"
proof -
  from example_2020_names obtain yd candle where
    y: "map_of example_split (''2020'' @ ''_data'') = Some yd"
    and c: "candlestick_of yd = Inr candle"
    and n: "\<forall>n\<in>set [''ema_200'', ''ema_100'', ''ema_80'', ''ema_50'', ''ema_30''].
            n \<in> fst ` set (columns yd)"
    by blast
  have l: "length [''ema_200'', ''ema_100'', ''ema_80'', ''ema_50'', ''ema_30''] = 5" by simp
  from unknown_beyond_fifth_ignored[OF y c l n, of "[''dark'']" "[''ema_999'']"] l
  show ?thesis by (intro conjI)
qed

section \<open>Properties of the module's start\<close>

lemma split_loop_result:
  "split_loop ys df sd = Inr sd' \<Longrightarrow>
     (\<forall>k. (map_of sd' k = None) = (map_of sd k = None \<and> k \<notin> split_key ` set ys))
   \<and> (\<forall>k p. map_of sd' k = Some p \<longrightarrow>
          map_of sd k = Some p
          \<or> (\<exists>y\<in>set ys. loc_slice (since_bound y) (till_bound y) df = Inr p))"
proof (induction ys arbitrary: sd)
  case Nil
  then show ?case by simp
next
  case (Cons y ys)
  from Cons.prems obtain part where p: "loc_slice (since_bound y) (till_bound y) df = Inr part"
    and r: "split_loop ys df (AList.update (split_key y) part sd) = Inr sd'"
    by (auto split: sum.splits)
  note IH = Cons.IH[OF r]
  have a: "(map_of sd' k = None) = (map_of sd k = None \<and> k \<notin> split_key ` set (y # ys))" for k
    using IH by (auto simp: update_conv')
  have b: "map_of sd k = Some q \<or> (\<exists>z\<in>set (y # ys). loc_slice (since_bound z) (till_bound z) df = Inr q)"
    if "map_of sd' k = Some q" for k q
  proof -
    from IH that have "map_of (AList.update (split_key y) part sd) k = Some q
      \<or> (\<exists>z\<in>set ys. loc_slice (since_bound z) (till_bound z) df = Inr q)" by blast
    then show ?thesis using p by (auto simp: update_conv' split: if_splits)
  qed
  from a b show ?case by blast
qed

lemma year_label_key: "(yr @ ''_data'' \<in> split_key ` set ys) = (yr \<in> str_int ` set ys)"
  by (auto simp: split_key_def)

lemma startup_InrD:
  assumes "startup df = Inr (df', sd)"
  shows "TechnicalIndicator df = Inr df'
       \<and> (\<forall>yr. (map_of sd (yr @ ''_data'') = None) = (yr \<notin> str_int ` set years))
       \<and> (\<forall>k yd. map_of sd k = Some yd \<longrightarrow>
             fst ` set (columns yd) = fst ` set (columns df) \<union> col_ema ` set intervals)"
proof -
  from assms have t: "TechnicalIndicator df = Inr df'"
    and s: "split_loop years df' [] = Inr sd"
    by (auto simp: startup_def split_by_intervals_def TimeSeriesSplit_init_def split: sum.splits)
  note R = split_loop_result[OF s]
  have n: "fst ` set (columns df') = fst ` set (columns df) \<union> col_ema ` set intervals"
    using t by (simp add: TechnicalIndicator_def add_emas_names)
  have "(map_of sd (yr @ ''_data'') = None) = (yr \<notin> str_int ` set years)" for yr
    using R by (simp add: year_label_key)
  moreover have "fst ` set (columns yd) = fst ` set (columns df) \<union> col_ema ` set intervals"
    if "map_of sd k = Some yd" for k yd
  proof -
    from R that have "\<exists>y\<in>set years. loc_slice (since_bound y) (till_bound y) df' = Inr yd"
      by simp
    then obtain y where "loc_slice (since_bound y) (till_bound y) df' = Inr yd" ..
    from loc_slice_names[OF this] have "set (map fst (columns yd)) = set (map fst (columns df'))"
      by simp
    then show ?thesis using n by simp
  qed
  ultimately show ?thesis using t by blast
qed

lemma startup_total:
  assumes "sorted (index df)" and "map_of (columns df) ''close'' = Some cl"
  shows "\<exists>df' sd. startup df = Inr (df', sd)"
proof -
  from add_emas_total[OF assms(2) intervals_pos] obtain df' where
    t: "add_emas intervals df = Inr df'" by blast
  have "sorted (index df')" using add_emas_index[OF t] assms(1) by simp
  from split_by_intervals_sorted[OF this, of years] obtain sp where
    "split_by_intervals (TimeSeriesSplit_init df' years) = Inr sp" by blast
  with t show ?thesis by (simp add: startup_def TechnicalIndicator_def)
qed

lemma year_labels:
  "str_int ` set years = set [''2017'', ''2018'', ''2019'', ''2020'', ''2021'', ''2022'', ''2023'', ''2024'']"
  by (simp add: years_def str_int_def digits_of.simps digit_char_def)


lemma candlestick_of_missing:
  assumes "\<not> {''open'', ''high'', ''low'', ''close''} \<subseteq> fst ` set (columns yd)"
  shows "\<exists>a. a \<in> {''open'', ''high'', ''low'', ''close''} \<and> a \<notin> fst ` set (columns yd)
           \<and> candlestick_of yd = Inl (AttributeError a)"
proof -
  have in_iff: "(n \<in> fst ` set (columns yd)) = (map_of (columns yd) n \<noteq> None)" for n
    by (simp add: map_of_eq_None_iff)
  show ?thesis
  proof (cases "map_of (columns yd) ''open''")
    case None
    then have "''open'' \<notin> fst ` set (columns yd)" by (simp add: in_iff)
    moreover have "candlestick_of yd = Inl (AttributeError ''open'')"
      using None by (simp add: candlestick_of_def getattr_def)
    ultimately show ?thesis by blast
  next
    case o: (Some a)
    show ?thesis
    proof (cases "map_of (columns yd) ''high''")
      case None
      then have "''high'' \<notin> fst ` set (columns yd)" by (simp add: in_iff)
      moreover have "candlestick_of yd = Inl (AttributeError ''high'')"
        using o None by (simp add: candlestick_of_def getattr_def)
      ultimately show ?thesis by blast
    next
      case h: (Some b)
      show ?thesis
      proof (cases "map_of (columns yd) ''low''")
        case None
        then have "''low'' \<notin> fst ` set (columns yd)" by (simp add: in_iff)
        moreover have "candlestick_of yd = Inl (AttributeError ''low'')"
          using o h None by (simp add: candlestick_of_def getattr_def)
        ultimately show ?thesis by blast
      next
        case l: (Some c)
        show ?thesis
        proof (cases "map_of (columns yd) ''close''")
          case None
          then have "''close'' \<notin> fst ` set (columns yd)" by (simp add: in_iff)
          moreover have "candlestick_of yd = Inl (AttributeError ''close'')"
            using o h l None by (simp add: candlestick_of_def getattr_def)
          ultimately show ?thesis by blast
        next
          case (Some d)
          with o h l have "{''open'', ''high'', ''low'', ''close''} \<subseteq> fst ` set (columns yd)"
            by (simp add: in_iff)
          with assms show ?thesis by contradiction
        qed
      qed
    qed
  qed
qed

lemma display_candle_error:
  "map_of sd (yr @ ''_data'') = Some yd \<Longrightarrow> candlestick_of yd = Inl e \<Longrightarrow>
   display_candlestick sd dm sel yr = Inl e"
  by (simp add: display_candlestick_def)


section \<open>The claims about errors\<close>

text \<open>
  Claim C6, as the specification states it: a requested name that the indicator
  computation did not produce makes the query raise.  After the module's start on the
  example table, the request \<open>['close']\<close> for 2020 returns the close prices as a
  trace, and a request of five indicator names followed by \<open>'ema_999'\<close> returns the
  figure of the five.
\<close>

theorem query_error_counterexample:
  "startup example_prices = Inr (example_enriched, example_split)
   \<and> ''close'' \<notin> col_ema ` set intervals
   \<and> display_candlestick example_split [] [''close''] ''2020'' =
       Inr (\<lparr>fig_data =
              [Candlestick [(2020, 12, 31, 22, 0, 0, 0), (2020, 12, 31, 23, 59, 59, 0)]
                 [10, 10] [12, 21] [9, 10] [10, 20] ''Candlestick'',
               Scatter [(2020, 12, 31, 22, 0, 0, 0), (2020, 12, 31, 23, 59, 59, 0)]
                 [10, 20] ''lines'' ''close'' ''orange''],
             fig_template = Some ''plotly'', fig_rangeslider_visible = Some False,
             fig_height = Some 800\<rparr>, ''light-mode'')
   \<and> ''ema_999'' \<notin> fst ` set (columns example_enriched)
   \<and> display_candlestick example_split []
       [''ema_9'', ''ema_12'', ''ema_21'', ''ema_30'', ''ema_50'', ''ema_999''] ''2020''
     = Inr (example_figure, ''light-mode'')"
proof -
  have a: "''close'' \<notin> col_ema ` set intervals"
    by (simp add: intervals_def col_ema_simps)
  have b: "display_candlestick example_split [] [''close''] ''2020'' =
       Inr (\<lparr>fig_data =
              [Candlestick [(2020, 12, 31, 22, 0, 0, 0), (2020, 12, 31, 23, 59, 59, 0)]
                 [10, 10] [12, 21] [9, 10] [10, 20] ''Candlestick'',
               Scatter [(2020, 12, 31, 22, 0, 0, 0), (2020, 12, 31, 23, 59, 59, 0)]
                 [10, 20] ''lines'' ''close'' ''orange''],
             fig_template = Some ''plotly'', fig_rangeslider_visible = Some False,
             fig_height = Some 800\<rparr>, ''light-mode'')"
    by (simp add: display_candlestick_def example_2020 candlestick_of_def getattr_def getitem_def
      Figure_def add_trace_def update_layout_def color_palettes_def)
  have c: "''ema_999'' \<notin> fst ` set (columns example_enriched)"
    by (simp add: example_enriched_def)
  have d: "display_candlestick example_split []
       [''ema_9'', ''ema_12'', ''ema_21'', ''ema_30'', ''ema_50'', ''ema_999''] ''2020''
     = Inr (example_figure, ''light-mode'')"
    by (simp add: display_candlestick_def example_2020 candlestick_of_def getattr_def getitem_def
      Figure_def add_trace_def update_layout_def color_palettes_def example_figure_def)
  from startup_example a b c d show ?thesis by (intro conjI)
qed


text \<open>
  Claim C6, amended: after a successful start a query raises \<open>KeyError\<close> when its
  year label is not the decimal form of a configured year.  When the year is known
  and the input table lacks one of the columns open, high, low, the query raises
  \<open>AttributeError\<close> for such a column, whatever names are requested.  When the year
  is known, these columns are there and one of the first five requested names is not
  a column of the enriched table (an input column or an \<open>ema_w\<close>), the query raises
  \<open>KeyError\<close> for such a name.  When the year is known, these columns are there and
  the first five names are all columns, the query returns a figure.
\<close>

theorem query_errors:
  assumes "startup df = Inr (df', sd)"
  shows "(yr \<notin> str_int ` set years \<longrightarrow>
            display_candlestick sd dm sel yr = Inl (KeyError (yr @ ''_data'')))
       \<and> (yr \<in> str_int ` set years
            \<and> \<not> {''open'', ''high'', ''low''} \<subseteq> fst ` set (columns df) \<longrightarrow>
            (\<exists>a. display_candlestick sd dm sel yr = Inl (AttributeError a)
                \<and> a \<in> {''open'', ''high'', ''low''} \<and> a \<notin> fst ` set (columns df)))
       \<and> (yr \<in> str_int ` set years
            \<and> {''open'', ''high'', ''low''} \<subseteq> fst ` set (columns df)
            \<and> (\<exists>n\<in>set (take 5 sel). n \<notin> fst ` set (columns df) \<union> col_ema ` set intervals) \<longrightarrow>
            (\<exists>k. display_candlestick sd dm sel yr = Inl (KeyError k) \<and> k \<in> set (take 5 sel)
                \<and> k \<notin> fst ` set (columns df) \<union> col_ema ` set intervals))
       \<and> (yr \<in> str_int ` set years
            \<and> {''open'', ''high'', ''low''} \<subseteq> fst ` set (columns df)
            \<and> (\<forall>n\<in>set (take 5 sel). n \<in> fst ` set (columns df) \<union> col_ema ` set intervals) \<longrightarrow>
            (\<exists>fig cls. display_candlestick sd dm sel yr = Inr (fig, cls)))"
proof -
  note S = startup_InrD[OF assms(1)]
  have t: "TechnicalIndicator df = Inr df'" using S by (rule conjunct1)
  have yk: "(map_of sd (y @ ''_data'') = None) = (y \<notin> str_int ` set years)" for y
    using S[THEN conjunct2, THEN conjunct1] by (rule spec)
  have nm: "fst ` set (columns yd) = fst ` set (columns df) \<union> col_ema ` set intervals"
    if "map_of sd k = Some yd" for k yd
    using S[THEN conjunct2, THEN conjunct2, rule_format, OF that] .
  from TechnicalIndicator_needs_close[OF t] obtain cl where "map_of (columns df) ''close'' = Some cl" ..
  then have cl: "''close'' \<in> fst ` set (columns df)"
    by (metis map_of_eq_None_iff option.distinct(1))
  have price: "a \<notin> col_ema ` set intervals" if "a \<in> {''open'', ''high'', ''low'', ''close''}" for a
    using that col_ema_not_price by auto
  have no: "display_candlestick sd dm sel yr = Inl (KeyError (yr @ ''_data''))"
    if "yr \<notin> str_int ` set years"
    using that by (intro display_no_year) (simp add: yk)
  have part: "\<exists>yd. map_of sd (yr @ ''_data'') = Some yd
      \<and> fst ` set (columns yd) = fst ` set (columns df) \<union> col_ema ` set intervals"
    if "yr \<in> str_int ` set years"
  proof -
    from that have "map_of sd (yr @ ''_data'') \<noteq> None" by (simp add: yk)
    then obtain yd where y: "map_of sd (yr @ ''_data'') = Some yd"
      by (cases "map_of sd (yr @ ''_data'')") simp_all
    from nm[OF y] y show ?thesis by (intro exI[of _ yd] conjI)
  qed
  have attr: "\<exists>a. display_candlestick sd dm sel yr = Inl (AttributeError a)
                \<and> a \<in> {''open'', ''high'', ''low''} \<and> a \<notin> fst ` set (columns df)"
    if a: "yr \<in> str_int ` set years"
      and b: "\<not> {''open'', ''high'', ''low''} \<subseteq> fst ` set (columns df)"
  proof -
    from part[OF a] obtain yd where y: "map_of sd (yr @ ''_data'') = Some yd"
      and n: "fst ` set (columns yd) = fst ` set (columns df) \<union> col_ema ` set intervals"
      by (elim exE conjE)
    from b obtain m where m: "m \<in> {''open'', ''high'', ''low''}" "m \<notin> fst ` set (columns df)"
      by blast
    from m(1) have "m \<in> {''open'', ''high'', ''low'', ''close''}" by blast
    from price[OF this] m(2) have "m \<notin> fst ` set (columns yd)" unfolding n by simp
    with \<open>m \<in> {''open'', ''high'', ''low'', ''close''}\<close>
    have "\<not> {''open'', ''high'', ''low'', ''close''} \<subseteq> fst ` set (columns yd)" by blast
    from candlestick_of_missing[OF this] obtain a' where
      a1: "a' \<in> {''open'', ''high'', ''low'', ''close''}"
      and a2: "a' \<notin> fst ` set (columns yd)"
      and a3: "candlestick_of yd = Inl (AttributeError a')" by (elim exE conjE)
    from a2 have a4: "a' \<notin> fst ` set (columns df)" unfolding n by simp
    with cl have "a' \<noteq> ''close''" by blast
    with a1 have a5: "a' \<in> {''open'', ''high'', ''low''}" by blast
    from display_candle_error[OF y a3] a5 a4 show ?thesis by (intro exI[of _ a'] conjI)
  qed
  have yes: "\<exists>yd candle. map_of sd (yr @ ''_data'') = Some yd \<and> candlestick_of yd = Inr candle
      \<and> fst ` set (columns yd) = fst ` set (columns df) \<union> col_ema ` set intervals"
    if a: "yr \<in> str_int ` set years"
      and p: "{''open'', ''high'', ''low''} \<subseteq> fst ` set (columns df)"
  proof -
    from part[OF a] obtain yd where y: "map_of sd (yr @ ''_data'') = Some yd"
      and n: "fst ` set (columns yd) = fst ` set (columns df) \<union> col_ema ` set intervals"
      by (elim exE conjE)
    have "{''open'', ''high'', ''low'', ''close''} \<subseteq> fst ` set (columns yd)"
      unfolding n using p cl by simp
    from candlestick_of_total[OF this] obtain candle where "candlestick_of yd = Inr candle" ..
    with y n show ?thesis by (intro exI[of _ yd] exI[of _ candle] conjI)
  qed
  have miss: "\<exists>k. display_candlestick sd dm sel yr = Inl (KeyError k) \<and> k \<in> set (take 5 sel)
                \<and> k \<notin> fst ` set (columns df) \<union> col_ema ` set intervals"
    if a: "yr \<in> str_int ` set years"
      and p: "{''open'', ''high'', ''low''} \<subseteq> fst ` set (columns df)"
      and b: "\<exists>n\<in>set (take 5 sel). n \<notin> fst ` set (columns df) \<union> col_ema ` set intervals"
  proof -
    from yes[OF a p] obtain yd candle where y: "map_of sd (yr @ ''_data'') = Some yd"
      and c: "candlestick_of yd = Inr candle"
      and n: "fst ` set (columns yd) = fst ` set (columns df) \<union> col_ema ` set intervals"
      by (elim exE conjE)
    from b obtain m where m: "m \<in> set (take 5 sel)"
      "m \<notin> fst ` set (columns df) \<union> col_ema ` set intervals" ..
    from m(2) have "m \<notin> fst ` set (columns yd)" unfolding n .
    from display_missing[OF y c m(1) this, of dm] show ?thesis unfolding n .
  qed
  have ok: "\<exists>fig cls. display_candlestick sd dm sel yr = Inr (fig, cls)"
    if a: "yr \<in> str_int ` set years"
      and p: "{''open'', ''high'', ''low''} \<subseteq> fst ` set (columns df)"
      and b: "\<forall>n\<in>set (take 5 sel). n \<in> fst ` set (columns df) \<union> col_ema ` set intervals"
  proof -
    from yes[OF a p] obtain yd candle where y: "map_of sd (yr @ ''_data'') = Some yd"
      and c: "candlestick_of yd = Inr candle"
      and n: "fst ` set (columns yd) = fst ` set (columns df) \<union> col_ema ` set intervals"
      by (elim exE conjE)
    from b have "\<forall>n\<in>set (take 5 sel). n \<in> fst ` set (columns yd)" unfolding n .
    from display_total[OF y c this] show ?thesis .
  qed
  show ?thesis
  proof (intro conjI impI)
    assume "yr \<notin> str_int ` set years"
    then show "display_candlestick sd dm sel yr = Inl (KeyError (yr @ ''_data''))" by (rule no)
  next
    assume h: "yr \<in> str_int ` set years
            \<and> \<not> {''open'', ''high'', ''low''} \<subseteq> fst ` set (columns df)"
    show "\<exists>a. display_candlestick sd dm sel yr = Inl (AttributeError a)
                \<and> a \<in> {''open'', ''high'', ''low''} \<and> a \<notin> fst ` set (columns df)"
      by (rule attr[OF h[THEN conjunct1] h[THEN conjunct2]])
  next
    assume h: "yr \<in> str_int ` set years
            \<and> {''open'', ''high'', ''low''} \<subseteq> fst ` set (columns df)
            \<and> (\<exists>n\<in>set (take 5 sel). n \<notin> fst ` set (columns df) \<union> col_ema ` set intervals)"
    show "\<exists>k. display_candlestick sd dm sel yr = Inl (KeyError k) \<and> k \<in> set (take 5 sel)
                \<and> k \<notin> fst ` set (columns df) \<union> col_ema ` set intervals"
      by (rule miss[OF h[THEN conjunct1] h[THEN conjunct2, THEN conjunct1]
            h[THEN conjunct2, THEN conjunct2]])
  next
    assume h: "yr \<in> str_int ` set years
            \<and> {''open'', ''high'', ''low''} \<subseteq> fst ` set (columns df)
            \<and> (\<forall>n\<in>set (take 5 sel). n \<in> fst ` set (columns df) \<union> col_ema ` set intervals)"
    show "\<exists>fig cls. display_candlestick sd dm sel yr = Inr (fig, cls)"
      by (rule ok[OF h[THEN conjunct1] h[THEN conjunct2, THEN conjunct1]
            h[THEN conjunct2, THEN conjunct2]])
  qed
qed

theorem query_errors_witness:
  "startup example_prices = Inr (example_enriched, example_split)
   \<and> {''open'', ''high'', ''low''} \<subseteq> fst ` set (columns example_prices)
   \<and> ''1999'' \<notin> str_int ` set years
   \<and> display_candlestick example_split [] [''ema_9''] ''1999'' = Inl (KeyError ''1999_data'')
   \<and> ''2020'' \<in> str_int ` set years
   \<and> (\<exists>k. display_candlestick example_split [] [''ema_9'', ''ema_999''] ''2020'' = Inl (KeyError k))
   \<and> (\<exists>fig cls. display_candlestick example_split [] [''ema_9'', ''close''] ''2020'' = Inr (fig, cls))
   \<and> \<not> {''open'', ''high'', ''low''} \<subseteq> fst ` set (columns close_only_prices)
   \<and> (\<exists>df' sd a. startup close_only_prices = Inr (df', sd)
         \<and> display_candlestick sd [] [''ema_9''] ''2020'' = Inl (AttributeError a))"
proof -
  have p: "{''open'', ''high'', ''low''} \<subseteq> fst ` set (columns example_prices)"
    by (simp add: example_prices_def)
  have n: "fst ` set (columns example_prices) \<union> col_ema ` set intervals
      = set [''open'', ''high'', ''low'', ''close'', ''ema_9'', ''ema_12'', ''ema_21'', ''ema_30'',
             ''ema_50'', ''ema_80'', ''ema_100'', ''ema_200'']"
    by (simp add: example_prices_def intervals_def col_ema_simps insert_commute)
  have y1: "''1999'' \<notin> str_int ` set years" and y2: "''2020'' \<in> str_int ` set years"
    unfolding year_labels by simp_all
  note Q = query_errors[OF startup_example]
  have a: "display_candlestick example_split [] [''ema_9''] ''1999'' = Inl (KeyError ''1999_data'')"
    using Q[of "''1999''" "[]" "[''ema_9'']", THEN conjunct1, THEN mp, OF y1] by simp
  have m: "\<exists>n\<in>set (take 5 [''ema_9'', ''ema_999'']).
          n \<notin> fst ` set (columns example_prices) \<union> col_ema ` set intervals"
    unfolding n by simp
  from Q[of "''2020''" "[]" "[''ema_9'', ''ema_999'']", THEN conjunct2, THEN conjunct2,
         THEN conjunct1, THEN mp, OF conjI[OF y2 conjI[OF p m]]]
  obtain k where "display_candlestick example_split [] [''ema_9'', ''ema_999''] ''2020'' = Inl (KeyError k)"
    by (elim exE conjE)
  then have b: "\<exists>k. display_candlestick example_split [] [''ema_9'', ''ema_999''] ''2020'' = Inl (KeyError k)" ..
  have g: "\<forall>n\<in>set (take 5 [''ema_9'', ''close'']).
          n \<in> fst ` set (columns example_prices) \<union> col_ema ` set intervals"
    unfolding n by simp
  have c: "\<exists>fig cls. display_candlestick example_split [] [''ema_9'', ''close''] ''2020'' = Inr (fig, cls)"
    by (rule Q[of "''2020''" "[]" "[''ema_9'', ''close'']", THEN conjunct2, THEN conjunct2,
         THEN conjunct2, THEN mp, OF conjI[OF y2 conjI[OF p g]]])
  have q: "\<not> {''open'', ''high'', ''low''} \<subseteq> fst ` set (columns close_only_prices)"
    by (simp add: close_only_prices_def)
  have "sorted (index close_only_prices)"
    and "map_of (columns close_only_prices) ''close'' = Some [10, 20, 40]"
    by (simp_all add: close_only_prices_def)
  from startup_total[OF this] obtain df' sd where s: "startup close_only_prices = Inr (df', sd)"
    by (elim exE)
  from query_errors[OF s, of "''2020''" "[]" "[''ema_9'']", THEN conjunct2, THEN conjunct1,
         THEN mp, OF conjI[OF y2 q]]
  obtain a' where "display_candlestick sd [] [''ema_9''] ''2020'' = Inl (AttributeError a')"
    by (elim exE conjE)
  with s have d: "\<exists>df' sd a. startup close_only_prices = Inr (df', sd)
         \<and> display_candlestick sd [] [''ema_9''] ''2020'' = Inl (AttributeError a)"
    by (intro exI[of _ df'] exI[of _ sd] exI[of _ a'] conjI)
  from startup_example p y1 a y2 b c q d show ?thesis by (intro conjI)
qed

text \<open>
  Claim C9, as the specification states it: a duplicate smoothing window or an empty
  year list makes initialisation raise.  The split with an empty year list returns
  the empty dictionary, and the indicator loop over the windows 9, 9 returns the table
  with one column \<open>ema_9\<close>.
\<close>

theorem configuration_error_counterexample:
  "split_by_intervals (TimeSeriesSplit_init example_enriched []) =
     Inr \<lparr>tss_data = example_enriched, tss_intervals = [], tss_split_data = []\<rparr>
   \<and> add_emas [9, 9] example_prices =
     Inr \<lparr>index = index example_prices,
          columns = columns example_prices @ [(''ema_9'', [10, 140 / 9, 1560 / 61])]\<rparr>"
  by (simp add: split_by_intervals_def TimeSeriesSplit_init_def example_prices_def
      calc_ema_def getitem_def ewm_mean_def setitem_def col_ema_simps alpha_of_span_def Let_def)


text \<open>
  Claim C9, amended: the program validates no configuration.  On a table with a close
  column the indicator loop fails exactly when a window is below 1, with the
  \<open>ValueError\<close> of pandas, and succeeds for all other window lists, duplicates
  included; the split with an empty year list returns the empty dictionary; with the
  windows and years the program fixes (windows at least 1 and distinct, years not
  empty) the start on an ascending index raises nothing.
\<close>

theorem initialization_errors:
  assumes "map_of (columns df) ''close'' = Some cl"
  shows "((\<exists>w\<in>set ws. w < 1) \<longrightarrow>
            add_emas ws df = Inl (ValueError ''span must satisfy: span >= 1''))
       \<and> ((\<forall>w\<in>set ws. 1 \<le> w) \<longrightarrow> (\<exists>df'. add_emas ws df = Inr df'))
       \<and> split_by_intervals (TimeSeriesSplit_init df []) =
           Inr \<lparr>tss_data = df, tss_intervals = [], tss_split_data = []\<rparr>
       \<and> (sorted (index df) \<longrightarrow> (\<exists>df' sd. startup df = Inr (df', sd)))
       \<and> (\<forall>w\<in>set intervals. 1 \<le> w) \<and> distinct intervals \<and> years \<noteq> []"
proof -
  have a: "add_emas ws df = Inl (ValueError ''span must satisfy: span >= 1'')"
    if "\<exists>w\<in>set ws. w < 1"
    using assms that by (rule add_emas_bad_span)
  have b: "\<exists>df'. add_emas ws df = Inr df'" if "\<forall>w\<in>set ws. 1 \<le> w"
    using assms that by (rule add_emas_total)
  have c: "split_by_intervals (TimeSeriesSplit_init df []) =
           Inr \<lparr>tss_data = df, tss_intervals = [], tss_split_data = []\<rparr>"
    by (simp add: split_by_intervals_def TimeSeriesSplit_init_def)
  have d: "\<exists>df' sd. startup df = Inr (df', sd)" if "sorted (index df)"
    using that assms by (rule startup_total)
  have e: "distinct intervals" "years \<noteq> []" by (simp_all add: intervals_def years_def)
  from a b c d e intervals_pos show ?thesis by (intro conjI impI)
qed

theorem initialization_errors_witness:
  "map_of (columns example_prices) ''close'' = Some [10, 20, 40]
   \<and> add_emas [9, 0, 12] example_prices = Inl (ValueError ''span must satisfy: span >= 1'')
   \<and> (\<exists>df'. add_emas [9, 9] example_prices = Inr df')
   \<and> sorted (index example_prices)
   \<and> (\<exists>df' sd. startup example_prices = Inr (df', sd))"
proof -
  have a: "\<exists>w\<in>set [9, 0, 12 :: int]. w < 1" by simp
  have b: "\<forall>w\<in>set [9, 9 :: int]. 1 \<le> w" by simp
  have c: "add_emas [9, 0, 12] example_prices = Inl (ValueError ''span must satisfy: span >= 1'')"
    by (rule initialization_errors[OF ex_close, of "[9, 0, 12]", THEN conjunct1, THEN mp, OF a])
  have d: "\<exists>df'. add_emas [9, 9] example_prices = Inr df'"
    by (rule initialization_errors[OF ex_close, of "[9, 9]", THEN conjunct2, THEN conjunct1,
          THEN mp, OF b])
  have e: "\<exists>df' sd. startup example_prices = Inr (df', sd)"
    by (rule initialization_errors[OF ex_close, of "[]", THEN conjunct2, THEN conjunct2,
          THEN conjunct2, THEN conjunct1, THEN mp, OF ex_sorted])
  from ex_close c d ex_sorted e show ?thesis by (intro conjI)
qed

end
